theory Spec2Isabelle
  imports Complex_Main "HOL-Library.AList" "HOL-Library.Multiset"
begin

section \<open>Exceptions\<close>

text \<open>
  The program signals every failure with a built-in Python exception that carries a
  message. An exception is modelled by its class and a constructor for its message; the
  data that the source formats into a message is kept only where a claim depends on it.
\<close>

datatype message =
    AcceptsExactly int
  | NeedsIdenticalFrequencies
  | CanOnlyAggregate
  | NumberOfInputsExpected int
  | InputNotOfType
  | ExactlyOneOutputNode
  | CouldntReachFinalNode
  | Builtin

datatype error =
    ValueError message
  | TypeError message
  | KeyError
  | IndexError
  | AttributeError
  | UnboundLocalError

section \<open>frequencies.py\<close>

subsection \<open>FreqStr\<close>

text \<open>
  The enumeration of the four frequencies. The handlers convert their arguments with
  \<open>FreqStr(...)\<close>; the model takes arguments that are members of the enumeration, as the
  frequency map of the specification supplies them, and on these the conversion is the
  identity.
\<close>

datatype FreqStr = D | M | Q | A

fun freq_value :: "FreqStr \<Rightarrow> string" where
  "freq_value D = ''D''"
| "freq_value M = ''M''"
| "freq_value Q = ''Q''"
| "freq_value A = ''A''"

fun numbervalue :: "FreqStr \<Rightarrow> int" where
  "numbervalue D = 1"
| "numbervalue M = 2"
| "numbervalue Q = 3"
| "numbervalue A = 4"

definition freq_ge :: "FreqStr \<Rightarrow> FreqStr \<Rightarrow> bool" where
  "freq_ge a b = (numbervalue a \<ge> numbervalue b)"

definition freq_gt :: "FreqStr \<Rightarrow> FreqStr \<Rightarrow> bool" where
  "freq_gt a b = (numbervalue a > numbervalue b)"

definition freq_le :: "FreqStr \<Rightarrow> FreqStr \<Rightarrow> bool" where
  "freq_le a b = (numbervalue a \<le> numbervalue b)"

definition freq_lt :: "FreqStr \<Rightarrow> FreqStr \<Rightarrow> bool" where
  "freq_lt a b = (numbervalue a < numbervalue b)"

text \<open>
  The built-ins \<open>max\<close> and \<open>min\<close> on a list: the first element is the candidate and a
  later element replaces it when it compares greater (for \<open>max\<close>, with \<open>__gt__\<close>) or
  smaller (for \<open>min\<close>, with \<open>__lt__\<close>); an empty argument raises ValueError.
\<close>

fun py_max :: "FreqStr list \<Rightarrow> error + FreqStr" where
  "py_max [] = Inl (ValueError Builtin)"
| "py_max (x # xs) = Inr (foldl (\<lambda>m y. if freq_gt y m then y else m) x xs)"

fun py_min :: "FreqStr list \<Rightarrow> error + FreqStr" where
  "py_min [] = Inl (ValueError Builtin)"
| "py_min (x # xs) = Inr (foldl (\<lambda>m y. if freq_lt y m then y else m) x xs)"

subsection \<open>Frequency handlers\<close>

datatype FrequencyHandler =
    PassthroughFrequency
  | IdenticalFrequencies "int option"
  | CoarsestFrequency
  | FinestFrequency
  | DownsampleFrequency FreqStr

fun INPUTS_N :: "FrequencyHandler \<Rightarrow> int option" where
  "INPUTS_N PassthroughFrequency = Some 1"
| "INPUTS_N (IdenticalFrequencies n) = n"
| "INPUTS_N CoarsestFrequency = None"
| "INPUTS_N FinestFrequency = None"
| "INPUTS_N (DownsampleFrequency t) = Some 1"

text \<open>The body of the abstract \<open>FrequencyHandler.output_frequency\<close>: the arity check.\<close>

definition super_output_frequency :: "FrequencyHandler \<Rightarrow> FreqStr list \<Rightarrow> error + unit" where
  "super_output_frequency h input_freqs =
     (case INPUTS_N h of
        None \<Rightarrow> Inr ()
      | Some n \<Rightarrow>
          if int (length input_freqs) \<noteq> n then Inl (TypeError (AcceptsExactly n))
          else Inr ())"

text \<open>
  \<open>output_frequency\<close> of each handler class, applied to the positional arguments of the
  call. Passthrough and Downsample declare exactly one parameter, so the interpreter
  raises TypeError for any other number of arguments before the body runs.
\<close>

fun output_frequency :: "FrequencyHandler \<Rightarrow> FreqStr list \<Rightarrow> error + FreqStr" where
  "output_frequency PassthroughFrequency input_freqs =
     (case input_freqs of
        [input_freq] \<Rightarrow>
          (case super_output_frequency PassthroughFrequency [input_freq] of
             Inl e \<Rightarrow> Inl e
           | Inr _ \<Rightarrow> Inr input_freq)
      | _ \<Rightarrow> Inl (TypeError Builtin))"
| "output_frequency (IdenticalFrequencies n) input_freqs =
     (case super_output_frequency (IdenticalFrequencies n) input_freqs of
        Inl e \<Rightarrow> Inl e
      | Inr _ \<Rightarrow>
          if length (remdups input_freqs) > 1 then Inl (ValueError NeedsIdenticalFrequencies)
          else (case input_freqs of [] \<Rightarrow> Inl IndexError | f # _ \<Rightarrow> Inr f))"
| "output_frequency CoarsestFrequency input_freqs =
     (case super_output_frequency CoarsestFrequency input_freqs of
        Inl e \<Rightarrow> Inl e
      | Inr _ \<Rightarrow> py_max input_freqs)"
| "output_frequency FinestFrequency input_freqs =
     (case super_output_frequency FinestFrequency input_freqs of
        Inl e \<Rightarrow> Inl e
      | Inr _ \<Rightarrow> py_min input_freqs)"
| "output_frequency (DownsampleFrequency target_freq) input_freqs =
     (case input_freqs of
        [input_freq] \<Rightarrow>
          (case super_output_frequency (DownsampleFrequency target_freq) [input_freq] of
             Inl e \<Rightarrow> Inl e
           | Inr _ \<Rightarrow>
               if freq_gt input_freq target_freq then Inl (ValueError CanOnlyAggregate)
               else Inr target_freq)
      | _ \<Rightarrow> Inl (TypeError Builtin))"

section \<open>pandas values\<close>

text \<open>
  The values that flow through a graph are pandas objects. pandas is a library outside
  the repository, so only what the calculation units rely on is represented: a Series
  has a name, an index and values, a DataFrame an index and named columns sharing it.
  Arithmetic on two Series with the same index is elementwise, and the result keeps the
  name only when both operands have the same name. Three kernels are not represented
  and are taken as parameters, collected in a record: the outer-join alignment of two
  Series whose indices differ, arithmetic with a DataFrame operand, and resampling.
\<close>

record 'a Series =
  s_name :: "string option"
  s_index :: "int list"
  s_values :: "'a list"

record 'a DataFrame =
  df_index :: "int list"
  df_columns :: "(string \<times> 'a list) list"

datatype 'a pdval = SeriesV "'a Series" | FrameV "'a DataFrame"

datatype arith = Plus | Minus | Times

fun arith_op :: "arith \<Rightarrow> 'a::{plus,minus,times} \<Rightarrow> 'a \<Rightarrow> 'a" where
  "arith_op Plus x y = x + y"
| "arith_op Minus x y = x - y"
| "arith_op Times x y = x * y"

record 'a pandas =
  align :: "'a Series \<Rightarrow> 'a Series \<Rightarrow> 'a Series \<times> 'a Series"
  frame_arith :: "arith \<Rightarrow> 'a pdval \<Rightarrow> 'a pdval \<Rightarrow> error + 'a pdval"
  resample :: "FreqStr \<Rightarrow> string \<Rightarrow> 'a pdval \<Rightarrow> error + 'a pdval"

definition series_arith ::
  "'a pandas \<Rightarrow> arith \<Rightarrow> 'a::{plus,minus,times} Series \<Rightarrow> 'a Series \<Rightarrow> 'a Series" where
  "series_arith P bop a b =
     (let (l, r) = (if s_index a = s_index b then (a, b) else align P a b)
      in \<lparr>s_name = (if s_name a = s_name b then s_name a else None),
          s_index = s_index l,
          s_values = map2 (arith_op bop) (s_values l) (s_values r)\<rparr>)"

definition pd_arith ::
  "'a pandas \<Rightarrow> arith \<Rightarrow> 'a::{plus,minus,times} pdval \<Rightarrow> 'a pdval \<Rightarrow> error + 'a pdval" where
  "pd_arith P bop x y =
     (case (x, y) of
        (SeriesV a, SeriesV b) \<Rightarrow> Inr (SeriesV (series_arith P bop a b))
      | _ \<Rightarrow> frame_arith P bop x y)"

text \<open>A pandas object combined with a scalar: elementwise, name and index kept.\<close>

definition pd_scalar :: "arith \<Rightarrow> 'a::{plus,minus,times} pdval \<Rightarrow> 'a \<Rightarrow> 'a pdval" where
  "pd_scalar bop x c =
     (case x of
        SeriesV a \<Rightarrow> SeriesV (a\<lparr>s_values := map (\<lambda>v. arith_op bop v c) (s_values a)\<rparr>)
      | FrameV d \<Rightarrow>
          FrameV (d\<lparr>df_columns :=
                     map (\<lambda>col. (fst col, map (\<lambda>v. arith_op bop v c) (snd col)))
                       (df_columns d)\<rparr>))"

text \<open>\<open>functools.reduce\<close> without an initial value: TypeError on an empty sequence.\<close>

fun reduce_from :: "('x \<Rightarrow> 'x \<Rightarrow> error + 'x) \<Rightarrow> 'x \<Rightarrow> 'x list \<Rightarrow> error + 'x" where
  "reduce_from f acc [] = Inr acc"
| "reduce_from f acc (y # ys) =
     (case f acc y of Inl e \<Rightarrow> Inl e | Inr acc' \<Rightarrow> reduce_from f acc' ys)"

fun reduce :: "('x \<Rightarrow> 'x \<Rightarrow> error + 'x) \<Rightarrow> 'x list \<Rightarrow> error + 'x" where
  "reduce f [] = Inl (TypeError Builtin)"
| "reduce f (x # xs) = reduce_from f x xs"

text \<open>
  \<open>dataframe[key]\<close>: KeyError when no column has the label, the column as a Series named
  by the label when one has, a DataFrame of the matching columns when several have.
\<close>

definition getitem :: "'a DataFrame \<Rightarrow> string \<Rightarrow> error + 'a pdval" where
  "getitem df key =
     (case filter (\<lambda>col. fst col = key) (df_columns df) of
        [] \<Rightarrow> Inl KeyError
      | [col] \<Rightarrow> Inr (SeriesV \<lparr>s_name = Some (fst col), s_index = df_index df,
                                s_values = snd col\<rparr>)
      | cols \<Rightarrow> Inr (FrameV \<lparr>df_index = df_index df, df_columns = cols\<rparr>))"

text \<open>\<open>dataframe[list_of_keys]\<close>: KeyError when a label is missing.\<close>

definition getitem_list :: "'a DataFrame \<Rightarrow> string list \<Rightarrow> error + 'a DataFrame" where
  "getitem_list df keys =
     (if list_ex (\<lambda>key. key \<notin> set (map fst (df_columns df))) keys then Inl KeyError
      else Inr \<lparr>df_index = df_index df,
                df_columns =
                  concat (map (\<lambda>key. filter (\<lambda>col. fst col = key) (df_columns df)) keys)\<rparr>)"

section \<open>inputs.py\<close>

datatype pytype = SeriesT | DataFrameT | TypeT

datatype CalcInput =
    SingleInput
  | SingleSeriesInput
  | SingleDataFrameInput
  | NSeriesInput int
  | MultipleSeriesInputs

fun INPUT_N :: "CalcInput \<Rightarrow> int option" where
  "INPUT_N SingleInput = Some 1"
| "INPUT_N SingleSeriesInput = Some 1"
| "INPUT_N SingleDataFrameInput = Some 1"
| "INPUT_N (NSeriesInput n) = Some n"
| "INPUT_N MultipleSeriesInputs = None"

fun INPUT_TYPES :: "CalcInput \<Rightarrow> pytype list" where
  "INPUT_TYPES SingleInput = [TypeT]"
| "INPUT_TYPES SingleSeriesInput = [SeriesT]"
| "INPUT_TYPES SingleDataFrameInput = [DataFrameT]"
| "INPUT_TYPES (NSeriesInput n) = [SeriesT]"
| "INPUT_TYPES MultipleSeriesInputs = [SeriesT]"

fun isinstance :: "'a pdval \<Rightarrow> pytype \<Rightarrow> bool" where
  "isinstance (SeriesV s) SeriesT = True"
| "isinstance (FrameV d) DataFrameT = True"
| "isinstance x t = False"

definition check_input_number :: "CalcInput \<Rightarrow> 'a pdval list \<Rightarrow> error + unit" where
  "check_input_number h inputs_list =
     (case INPUT_N h of
        None \<Rightarrow> Inr ()
      | Some n \<Rightarrow>
          if int (length inputs_list) \<noteq> n then Inl (ValueError (NumberOfInputsExpected n))
          else Inr ())"

definition check_input_types :: "CalcInput \<Rightarrow> 'a pdval list \<Rightarrow> error + unit" where
  "check_input_types h inputs =
     (let types = (if length (INPUT_TYPES h) = 1
                   then concat (replicate (length inputs) (INPUT_TYPES h))
                   else INPUT_TYPES h)
      in if list_ex (\<lambda>p. \<not> isinstance (fst p) (snd p)) (zip inputs types)
         then Inl (TypeError InputNotOfType)
         else Inr ())"

definition check_inputs :: "CalcInput \<Rightarrow> 'a pdval list \<Rightarrow> error + unit" where
  "check_inputs h inputs =
     (case check_input_number h inputs of
        Inl e \<Rightarrow> Inl e
      | Inr _ \<Rightarrow> check_input_types h inputs)"

section \<open>nodes.py\<close>

text \<open>
  A calculation unit. The diagnostic \<open>_result_cache\<close> that every \<open>compute\<close> overwrites is
  not represented: nothing in the program reads it.
\<close>

datatype 'a Calculation =
    Filter "string list" bool
  | Output string
  | Input string
  | Add 'a
  | Subtract 'a
  | Multiply 'a
  | Aggregate FreqStr string

fun check_input_order :: "'a Calculation \<Rightarrow> bool" where
  "check_input_order (Subtract c) = True"
| "check_input_order u = False"

fun check_output_order :: "'a Calculation \<Rightarrow> bool" where
  "check_output_order u = False"

fun frequency_handler :: "'a Calculation \<Rightarrow> FrequencyHandler" where
  "frequency_handler (Filter names collapse) = PassthroughFrequency"
| "frequency_handler (Output ts) = PassthroughFrequency"
| "frequency_handler (Input ts) = PassthroughFrequency"
| "frequency_handler (Add c) = IdenticalFrequencies None"
| "frequency_handler (Subtract c) = IdenticalFrequencies (Some 2)"
| "frequency_handler (Multiply c) = IdenticalFrequencies None"
| "frequency_handler (Aggregate frequency aggregation) = DownsampleFrequency frequency"

fun inputs_handler :: "'a Calculation \<Rightarrow> CalcInput" where
  "inputs_handler (Filter names collapse) = SingleDataFrameInput"
| "inputs_handler (Output ts) = SingleSeriesInput"
| "inputs_handler (Input ts) = SingleDataFrameInput"
| "inputs_handler (Add c) = MultipleSeriesInputs"
| "inputs_handler (Subtract c) = NSeriesInput 2"
| "inputs_handler (Multiply c) = MultipleSeriesInputs"
| "inputs_handler (Aggregate frequency aggregation) = SingleInput"

text \<open>
  \<open>__str__\<close> of each unit: the class name, followed for Input and Output by the name of
  the series, for Aggregate by the frequency and the aggregation, and for Add, Subtract
  and Multiply by the text \<open>arg_str\<close>. That text is \<open>f"({self.const_float})"\<close> unless the
  constant equals the default of the class (0.0, for Multiply 1.0), when it is empty. How
  Python prints a number is not modelled, so \<open>arg_str\<close> stays a fragment of its own, in
  the constant: \<open>UnlessZero c\<close> for the default 0.0 and \<open>UnlessOne c\<close> for the default 1.0.
  A Filter prints its class name only.
\<close>

datatype 'a fragment = Text string | UnlessZero 'a | UnlessOne 'a

fun node_str :: "'a Calculation \<Rightarrow> 'a fragment list" where
  "node_str (Filter names collapse) = [Text ''Filter'']"
| "node_str (Output ts) = [Text (''Output'' @ '': '' @ ts)]"
| "node_str (Input ts) = [Text (''Input'' @ ''('' @ ts @ '')'')]"
| "node_str (Add const_float) = [Text ''Add'', UnlessZero const_float]"
| "node_str (Subtract const_float) = [Text ''Subtract'', UnlessZero const_float]"
| "node_str (Multiply const_float) = [Text ''Multiply'', UnlessOne const_float]"
| "node_str (Aggregate frequency aggregation) =
     [Text (''Aggregate('' @ freq_value frequency @ ''-'' @ aggregation @ '')'')]"

text \<open>The attribute \<open>ts_name\<close>, which only Input and Output units have.\<close>

fun ts_name :: "'a Calculation \<Rightarrow> string option" where
  "ts_name (Output ts) = Some ts"
| "ts_name (Input ts) = Some ts"
| "ts_name u = None"

text \<open>
  \<open>compute\<close> of each unit, applied to the positional arguments of the call. A unit whose
  \<open>compute\<close> declares one parameter raises the interpreter's TypeError on any other
  number of arguments.
\<close>

fun node_compute ::
  "'a pandas \<Rightarrow> 'a::{plus,minus,times} Calculation \<Rightarrow> 'a pdval list \<Rightarrow> error + 'a pdval" where
  "node_compute P (Filter names collapse) args =
     (case args of
        [dataframe] \<Rightarrow>
          (case check_inputs (inputs_handler (Filter names collapse :: 'a Calculation)) [dataframe] of
             Inl e \<Rightarrow> Inl e
           | Inr _ \<Rightarrow>
               (case dataframe of
                  SeriesV s \<Rightarrow> Inl (TypeError InputNotOfType)
                | FrameV df \<Rightarrow>
                    (case getitem_list df names of
                       Inl e \<Rightarrow> Inl e
                     | Inr filtered_data \<Rightarrow>
                         (case df_columns filtered_data of
                            [col] \<Rightarrow>
                              if collapse
                              then Inr (SeriesV \<lparr>s_name = Some (fst col),
                                                 s_index = df_index filtered_data,
                                                 s_values = snd col\<rparr>)
                              else Inr (FrameV filtered_data)
                          | _ \<Rightarrow> Inr (FrameV filtered_data)))))
      | _ \<Rightarrow> Inl (TypeError Builtin))"
| "node_compute P (Output ts) args =
     (case args of
        [time_series] \<Rightarrow>
          (case check_inputs (inputs_handler (Output ts :: 'a Calculation)) [time_series] of
             Inl e \<Rightarrow> Inl e
           | Inr _ \<Rightarrow>
               (case time_series of
                  SeriesV s \<Rightarrow> Inr (SeriesV (s\<lparr>s_name := Some ts\<rparr>))
                | FrameV df \<Rightarrow> Inl (TypeError InputNotOfType)))
      | _ \<Rightarrow> Inl (TypeError Builtin))"
| "node_compute P (Input ts) args =
     (case args of
        [dataframe] \<Rightarrow>
          (case check_inputs (inputs_handler (Input ts :: 'a Calculation)) [dataframe] of
             Inl e \<Rightarrow> Inl e
           | Inr _ \<Rightarrow>
               (case dataframe of
                  SeriesV s \<Rightarrow> Inl (TypeError InputNotOfType)
                | FrameV df \<Rightarrow> getitem df ts))
      | _ \<Rightarrow> Inl (TypeError Builtin))"
| "node_compute P (Add const_float) ts_n =
     (case reduce (pd_arith P Plus) ts_n of
        Inl e \<Rightarrow> Inl e
      | Inr output \<Rightarrow> Inr (pd_scalar Plus output const_float))"
| "node_compute P (Subtract const_float) inputs =
     (case check_inputs (inputs_handler (Subtract const_float)) inputs of
        Inl e \<Rightarrow> Inl e
      | Inr _ \<Rightarrow>
          (case inputs of
             [ts_1, ts_2] \<Rightarrow>
               (case pd_arith P Minus ts_1 ts_2 of
                  Inl e \<Rightarrow> Inl e
                | Inr output \<Rightarrow> Inr (pd_scalar Minus output const_float))
           | _ \<Rightarrow> Inl (ValueError Builtin)))"
| "node_compute P (Multiply const_float) ts_n =
     (case check_inputs (inputs_handler (Multiply const_float)) ts_n of
        Inl e \<Rightarrow> Inl e
      | Inr _ \<Rightarrow>
          (case reduce (pd_arith P Times) ts_n of
             Inl e \<Rightarrow> Inl e
           | Inr output \<Rightarrow> Inr (pd_scalar Times output const_float)))"
| "node_compute P (Aggregate frequency aggregation) args =
     (case args of
        [data] \<Rightarrow> resample P frequency aggregation data
      | _ \<Rightarrow> Inl (TypeError Builtin))"

text \<open>The property \<open>output_frequency\<close> of a unit is the method of its frequency handler.\<close>

definition node_output_frequency :: "'a Calculation \<Rightarrow> FreqStr list \<Rightarrow> error + FreqStr" where
  "node_output_frequency u input_freqs = output_frequency (frequency_handler u) input_freqs"

section \<open>graphs.py\<close>

subsection \<open>The directed graph\<close>

text \<open>
  The calculation units define neither \<open>__eq__\<close> nor \<open>__hash__\<close>, so the graph compares
  and hashes them by object identity: a node is a unit together with its identity, and
  two units built with the same arguments are different nodes.

  \<open>CompositeCalculation\<close> extends the \<open>DiGraph\<close> of networkx. Of that class the model keeps
  what the program uses: the nodes in the order in which they were first mentioned, and
  one attribute dictionary for each ordered pair of adjacent nodes, in the order in which
  the pairs were first added. The predecessor and successor dictionaries of a node list
  its neighbours in that order.
\<close>

datatype 'a node = Node (ident: nat) (calc: "'a Calculation")

text \<open>The optional third component of an edge tuple; an absent key is \<open>None\<close>.\<close>

record edge_args =
  input_idx :: "int option"
  output_idx :: "int option"

text \<open>
  The attribute dictionary of an edge. For the two index keys \<open>None\<close> means that the key
  is absent. The two payload keys are set to Python's \<open>None\<close> by \<open>_clear_edge_info\<close> at the
  start of each pass, before anything reads them, and a unit never returns \<open>None\<close>; so
  for them \<open>None\<close> is that value.
\<close>

record 'a edge_data =
  attr_input_idx :: "int option"
  attr_output_idx :: "int option"
  attr_compute :: "'a pdval option"
  attr_output_frequency :: "FreqStr option"

record 'a DiGraph =
  graph_name :: string
  nodes :: "'a node list"
  adj :: "(('a node \<times> 'a node) \<times> 'a edge_data) list"

definition add_node :: "'a DiGraph \<Rightarrow> 'a node \<Rightarrow> 'a DiGraph" where
  "add_node G n = (if n \<in> set (nodes G) then G else G\<lparr>nodes := nodes G @ [n]\<rparr>)"

definition add_edge :: "'a DiGraph \<Rightarrow> 'a node \<Rightarrow> 'a node \<Rightarrow> edge_args \<Rightarrow> 'a DiGraph" where
  "add_edge G u v dd =
     (let G1 = add_node (add_node G u) v;
          datadict = (case map_of (adj G1) (u, v) of
                        None \<Rightarrow> \<lparr>attr_input_idx = None, attr_output_idx = None,
                                  attr_compute = None, attr_output_frequency = None\<rparr>
                      | Some d \<Rightarrow> d);
          updated = datadict
            \<lparr>attr_input_idx :=
               (case input_idx dd of None \<Rightarrow> attr_input_idx datadict | Some i \<Rightarrow> Some i),
             attr_output_idx :=
               (case output_idx dd of None \<Rightarrow> attr_output_idx datadict | Some i \<Rightarrow> Some i)\<rparr>
      in G1\<lparr>adj := AList.update (u, v) updated (adj G1)\<rparr>)"

fun add_edges_from :: "'a DiGraph \<Rightarrow> ('a node \<times> 'a node \<times> edge_args) list \<Rightarrow> 'a DiGraph" where
  "add_edges_from G [] = G"
| "add_edges_from G (e # es) = add_edges_from (add_edge G (fst e) (fst (snd e)) (snd (snd e))) es"

definition CompositeCalculation ::
  "string \<Rightarrow> ('a node \<times> 'a node \<times> edge_args) list \<Rightarrow> 'a DiGraph" where
  "CompositeCalculation name edges =
     add_edges_from \<lparr>graph_name = name, nodes = [], adj = []\<rparr> edges"

text \<open>\<open>self.pred[node].items()\<close> and \<open>self.succ[node].items()\<close>.\<close>

definition pred_items :: "'a DiGraph \<Rightarrow> 'a node \<Rightarrow> ('a node \<times> 'a edge_data) list" where
  "pred_items G node =
     map (\<lambda>e. (fst (fst e), snd e)) (filter (\<lambda>e. snd (fst e) = node) (adj G))"

definition succ_items :: "'a DiGraph \<Rightarrow> 'a node \<Rightarrow> ('a node \<times> 'a edge_data) list" where
  "succ_items G node =
     map (\<lambda>e. (snd (fst e), snd e)) (filter (\<lambda>e. fst (fst e) = node) (adj G))"

definition predecessors :: "'a DiGraph \<Rightarrow> 'a node \<Rightarrow> 'a node list" where
  "predecessors G node = map fst (pred_items G node)"

definition successors :: "'a DiGraph \<Rightarrow> 'a node \<Rightarrow> 'a node list" where
  "successors G node = map fst (succ_items G node)"

subsection \<open>Edge attributes by key\<close>

text \<open>
  The traversal is written once for both passes and reads and writes the edge attribute
  whose key is the name of the method it calls. A key is modelled by the pair of its
  reader and its writer on the attribute dictionary.
\<close>

record ('a, 'v) edge_key =
  get_attr :: "'a edge_data \<Rightarrow> 'v option"
  set_attr :: "'v option \<Rightarrow> 'a edge_data \<Rightarrow> 'a edge_data"

definition compute_key :: "('a, 'a pdval) edge_key" where
  "compute_key = \<lparr>get_attr = attr_compute, set_attr = (\<lambda>v d. d\<lparr>attr_compute := v\<rparr>)\<rparr>"

definition output_frequency_key :: "('a, FreqStr) edge_key" where
  "output_frequency_key =
     \<lparr>get_attr = attr_output_frequency, set_attr = (\<lambda>v d. d\<lparr>attr_output_frequency := v\<rparr>)\<rparr>"

text \<open>
  \<open>self.edges[u, v][key]\<close>. Every use in the program takes \<open>u\<close> and \<open>v\<close> from the adjacency
  of the graph, so the edge exists.
\<close>

definition edge_attr :: "'a DiGraph \<Rightarrow> ('a, 'v) edge_key \<Rightarrow> 'a node \<Rightarrow> 'a node \<Rightarrow> 'v option" where
  "edge_attr G k u v = (case map_of (adj G) (u, v) of None \<Rightarrow> None | Some d \<Rightarrow> get_attr k d)"

definition set_edge_attr ::
  "'a DiGraph \<Rightarrow> ('a, 'v) edge_key \<Rightarrow> 'a node \<Rightarrow> 'a node \<Rightarrow> 'v \<Rightarrow> 'a DiGraph" where
  "set_edge_attr G k u v val = G\<lparr>adj := AList.map_entry (u, v) (set_attr k (Some val)) (adj G)\<rparr>"

subsection \<open>Methods of CompositeCalculation\<close>

fun collect :: "('x \<Rightarrow> error + 'y) \<Rightarrow> 'x list \<Rightarrow> error + 'y list" where
  "collect f [] = Inr []"
| "collect f (x # xs) =
     (case f x of
        Inl e \<Rightarrow> Inl e
      | Inr y \<Rightarrow> (case collect f xs of Inl e \<Rightarrow> Inl e | Inr ys \<Rightarrow> Inr (y # ys)))"

text \<open>
  An order-sensitive unit reads \<open>args['input_idx']\<close> of every incoming edge (KeyError when
  the key is absent) and sorts its predecessors by it; \<open>sorted\<close> is stable.
\<close>

definition get_sorted_node_predecessors :: "'a DiGraph \<Rightarrow> 'a node \<Rightarrow> error + 'a node list" where
  "get_sorted_node_predecessors G node =
     (if check_input_order (calc node) then
        (case collect (\<lambda>item. case attr_input_idx (snd item) of
                                None \<Rightarrow> Inl KeyError
                              | Some i \<Rightarrow> Inr (fst item, i))
                (pred_items G node) of
           Inl e \<Rightarrow> Inl e
         | Inr inputs \<Rightarrow> Inr (map fst (sort_key snd inputs)))
      else Inr (map fst (pred_items G node)))"

definition get_sorted_node_successors :: "'a DiGraph \<Rightarrow> 'a node \<Rightarrow> error + 'a node list" where
  "get_sorted_node_successors G node =
     (if check_output_order (calc node) then
        (case collect (\<lambda>item. case attr_output_idx (snd item) of
                                None \<Rightarrow> Inl KeyError
                              | Some i \<Rightarrow> Inr (fst item, i))
                (succ_items G node) of
           Inl e \<Rightarrow> Inl e
         | Inr outputs \<Rightarrow> Inr (map fst (sort_key snd outputs)))
      else Inr (map fst (succ_items G node)))"

definition get_predecessor_edge_information ::
  "'a DiGraph \<Rightarrow> 'a node \<Rightarrow> ('a, 'v) edge_key \<Rightarrow> error + 'v option list" where
  "get_predecessor_edge_information G node k =
     (case get_sorted_node_predecessors G node of
        Inl e \<Rightarrow> Inl e
      | Inr predecessor_nodes \<Rightarrow>
          Inr (map (\<lambda>predecessor. edge_attr G k predecessor node) predecessor_nodes))"

text \<open>\<open>zip\<close> stops at the shorter of the successors and the values.\<close>

definition update_successor_edge_information ::
  "'a DiGraph \<Rightarrow> 'a node \<Rightarrow> ('a, 'v) edge_key \<Rightarrow> 'v list \<Rightarrow> error + 'a DiGraph" where
  "update_successor_edge_information G node k vals =
     (case get_sorted_node_successors G node of
        Inl e \<Rightarrow> Inl e
      | Inr succs \<Rightarrow>
          Inr (foldl (\<lambda>H sv. set_edge_attr H k node (fst sv) (snd sv)) G (zip succs vals)))"

definition input_nodes :: "'a DiGraph \<Rightarrow> 'a node list" where
  "input_nodes G = filter (\<lambda>node. pred_items G node = []) (nodes G)"

definition output_node :: "'a DiGraph \<Rightarrow> error + 'a node" where
  "output_node G =
     (case filter (\<lambda>node. succ_items G node = []) (nodes G) of
        [node] \<Rightarrow> Inr node
      | _ \<Rightarrow> Inl (ValueError ExactlyOneOutputNode))"

definition node_visited :: "'a DiGraph \<Rightarrow> ('a, 'v) edge_key \<Rightarrow> 'a node \<Rightarrow> bool" where
  "node_visited G k node = list_all (\<lambda>s. edge_attr G k node s \<noteq> None) (successors G node)"

definition node_inputs_ready :: "'a DiGraph \<Rightarrow> ('a, 'v) edge_key \<Rightarrow> 'a node \<Rightarrow> bool" where
  "node_inputs_ready G k node =
     list_all (\<lambda>p. edge_attr G k p node \<noteq> None) (predecessors G node)"

text \<open>
  The frontier. The source collects it in a \<open>set\<close> and returns \<open>list\<close> of the set, whose
  order is that of the hash table; \<open>list_of_set\<close> stands for this conversion, a function
  of the sequence of insertions. The property \<open>output_node\<close> is evaluated once for every
  node, so a graph without exactly one node without successors raises here.
\<close>

definition unvisited_nodes_with_all_inputs ::
  "('a node list \<Rightarrow> 'a node list) \<Rightarrow> 'a DiGraph \<Rightarrow> ('a, 'v) edge_key \<Rightarrow> error + 'a node list" where
  "unvisited_nodes_with_all_inputs list_of_set G k =
     (if nodes G = [] then Inr (list_of_set [])
      else
        (case output_node G of
           Inl e \<Rightarrow> Inl e
         | Inr final \<Rightarrow>
             Inr (list_of_set
                    (filter (\<lambda>node. node_inputs_ready G k node
                                     \<and> (\<not> node_visited G k node \<or> node = final))
                       (nodes G)))))"

definition clear_edge_info :: "'a DiGraph \<Rightarrow> ('a, 'v) edge_key \<Rightarrow> 'a DiGraph" where
  "clear_edge_info G k = G\<lparr>adj := map (\<lambda>e. (fst e, set_attr k None (snd e))) (adj G)\<rparr>"

subsection \<open>The traversal\<close>

text \<open>
  What a pass can raise: one of the exceptions above, passed on as it is, or the
  ValueError that \<open>_traverse_graph\<close> builds around the ValueError of a node, with the
  message \<open>f"Problem occured when evaluating node {node}: {err}"\<close>. That message holds
  the text \<open>str(node)\<close> of the node, not the node, and the message of the original.
\<close>

datatype 'a raised =
    Raised error
  | ProblemEvaluatingNode "'a fragment list" message

text \<open>
  The call \<open>getattr(node, method_name)(*inputs)\<close> inside \<open>try\<close>: a ValueError is raised
  again as the ValueError above; any other exception passes unchanged. The inputs are
  the payloads of the incoming edges. Those of a frontier node are all populated
  (\<open>ready_inputs_populated\<close> below), so the first branch, a unit called with \<open>None\<close>, is
  never taken by the traversal; it is there to make the function total.
\<close>

definition evaluate_node ::
  "('a Calculation \<Rightarrow> 'v list \<Rightarrow> error + 'v) \<Rightarrow> 'a node \<Rightarrow> 'v option list
     \<Rightarrow> 'a raised + 'v" where
  "evaluate_node node_method node inputs =
     (case those inputs of
        None \<Rightarrow> Inl (Raised (TypeError Builtin))
      | Some args \<Rightarrow>
          (case node_method (calc node) args of
             Inl (ValueError err) \<Rightarrow> Inl (ProblemEvaluatingNode (node_str (calc node)) err)
           | Inl e \<Rightarrow> Inl (Raised e)
           | Inr calculation_results \<Rightarrow> Inr calculation_results))"

text \<open>
  The \<open>for\<close> loop over the frontier. It returns the graph it leaves and, unless a node
  raised, the variable \<open>calculation_results\<close> (\<open>None\<close> while unbound) and whether the
  loop ended by \<open>break\<close> at the final node. No unit returns a list, so the result of a
  node is always wrapped in a one-element list.
\<close>

fun visit_nodes ::
  "('a, 'v) edge_key \<Rightarrow> ('a Calculation \<Rightarrow> 'v list \<Rightarrow> error + 'v) \<Rightarrow> 'a node \<Rightarrow> 'a DiGraph
     \<Rightarrow> 'a node list \<Rightarrow> 'v list option
     \<Rightarrow> 'a DiGraph \<times> ('a raised + 'v list option \<times> bool)" where
  "visit_nodes k node_method final_node G [] calculation_results =
     (G, Inr (calculation_results, False))"
| "visit_nodes k node_method final_node G (node # rest) calculation_results =
     (case get_predecessor_edge_information G node k of
        Inl e \<Rightarrow> (G, Inl (Raised e))
      | Inr inputs \<Rightarrow>
          (case evaluate_node node_method node inputs of
             Inl e \<Rightarrow> (G, Inl e)
           | Inr r \<Rightarrow>
               if node \<noteq> final_node then
                 (case update_successor_edge_information G node k [r] of
                    Inl e \<Rightarrow> (G, Inl (Raised e))
                  | Inr G' \<Rightarrow> visit_nodes k node_method final_node G' rest (Some [r]))
               else (G, Inr (Some [r], True))))"

text \<open>
  What \<open>_traverse_graph\<close> hands back is a Python object: the bare value of a unit, or a
  list of such values.
\<close>

datatype 'v returned = Bare 'v | ListOf "'v list"

text \<open>
  The result of a pass: the graph it leaves behind (also when it raises), the object
  returned or the exception, and two records of the run that the program does not keep:
  the number of rounds of the \<open>while\<close> loop that were started, and every value that the
  variable \<open>computable_nodes\<close> took, in order.
\<close>

record ('a, 'v) pass_result =
  graph_after :: "'a DiGraph"
  rounds_run :: nat
  frontiers :: "'a node list list"
  outcome :: "'a raised + 'v returned"

function traverse_loop ::
  "('a node list \<Rightarrow> 'a node list) \<Rightarrow> ('a, 'v) edge_key
     \<Rightarrow> ('a Calculation \<Rightarrow> 'v list \<Rightarrow> error + 'v) \<Rightarrow> 'a node \<Rightarrow> 'a DiGraph \<Rightarrow> 'a node list
     \<Rightarrow> 'v list option \<Rightarrow> bool \<Rightarrow> int \<Rightarrow> nat \<Rightarrow> 'a node list list
     \<Rightarrow> ('a, 'v) pass_result" where
  "traverse_loop list_of_set k node_method final_node G computable_nodes calculation_results
       final_node_reached iters_left rounds earlier =
     (if computable_nodes \<noteq> [] \<and> iters_left > 0 then
        (case visit_nodes k node_method final_node G computable_nodes calculation_results of
           (G', Inl e) \<Rightarrow>
             \<lparr>graph_after = G', rounds_run = rounds + 1,
              frontiers = earlier @ [computable_nodes], outcome = Inl e\<rparr>
         | (G', Inr (results', hit)) \<Rightarrow>
             (case unvisited_nodes_with_all_inputs list_of_set G' k of
                Inl e \<Rightarrow>
                  \<lparr>graph_after = G', rounds_run = rounds + 1,
                   frontiers = earlier @ [computable_nodes], outcome = Inl (Raised e)\<rparr>
              | Inr computable_nodes' \<Rightarrow>
                  traverse_loop list_of_set k node_method final_node G' computable_nodes' results'
                    (final_node_reached \<or> hit) (iters_left - 1) (rounds + 1)
                    (earlier @ [computable_nodes])))
      else
        \<lparr>graph_after = G, rounds_run = rounds, frontiers = earlier @ [computable_nodes],
         outcome =
           (if \<not> final_node_reached then Inl (Raised (ValueError CouldntReachFinalNode))
            else (case calculation_results of
                    None \<Rightarrow> Inl (Raised UnboundLocalError)
                  | Some results \<Rightarrow> Inr (ListOf results)))\<rparr>)"
  by pat_completeness auto
termination
  by (relation "measure (\<lambda>(list_of_set, k, node_method, final_node, G, computable_nodes,
                            calculation_results, final_node_reached, iters_left, rounds,
                            earlier).
                          nat iters_left)") auto

declare traverse_loop.simps [simp del]

definition traverse_graph_iter ::
  "('a node list \<Rightarrow> 'a node list) \<Rightarrow> ('a, 'v) edge_key
     \<Rightarrow> ('a Calculation \<Rightarrow> 'v list \<Rightarrow> error + 'v) \<Rightarrow> 'a DiGraph \<Rightarrow> int
     \<Rightarrow> ('a, 'v) pass_result" where
  "traverse_graph_iter list_of_set k node_method G max_iter =
     (case output_node G of
        Inl e \<Rightarrow> \<lparr>graph_after = G, rounds_run = 0, frontiers = [], outcome = Inl (Raised e)\<rparr>
      | Inr final_node \<Rightarrow>
          (case unvisited_nodes_with_all_inputs list_of_set G k of
             Inl e \<Rightarrow>
               \<lparr>graph_after = G, rounds_run = 0, frontiers = [], outcome = Inl (Raised e)\<rparr>
           | Inr computable_nodes \<Rightarrow>
               traverse_loop list_of_set k node_method final_node G computable_nodes None False
                 max_iter 0 []))"

text \<open>\<open>_traverse_graph\<close> is only ever called with the default \<open>max_iter=10\<close>.\<close>

definition max_iter_default :: int where
  "max_iter_default = 10"

definition traverse_graph ::
  "('a node list \<Rightarrow> 'a node list) \<Rightarrow> ('a, 'v) edge_key
     \<Rightarrow> ('a Calculation \<Rightarrow> 'v list \<Rightarrow> error + 'v) \<Rightarrow> 'a DiGraph \<Rightarrow> ('a, 'v) pass_result" where
  "traverse_graph list_of_set k node_method G = traverse_graph_iter list_of_set k node_method G max_iter_default"

subsection \<open>The two passes\<close>

text \<open>
  The seeding loop of \<open>compute\<close> and of \<open>parse_frequencies\<close>: each input node is invoked
  on the value supplied from outside and its result is passed, as a one-element list,
  to \<open>_update_successor_edge_information\<close>.
\<close>

fun seed ::
  "('a, 'v) edge_key \<Rightarrow> ('a node \<Rightarrow> error + 'v) \<Rightarrow> 'a DiGraph \<Rightarrow> 'a node list
     \<Rightarrow> 'a DiGraph \<times> (error + unit)" where
  "seed k invoke G [] = (G, Inr ())"
| "seed k invoke G (node # rest) =
     (case invoke node of
        Inl e \<Rightarrow> (G, Inl e)
      | Inr calculation_results \<Rightarrow>
          (case update_successor_edge_information G node k [calculation_results] of
             Inl e \<Rightarrow> (G, Inl e)
           | Inr G' \<Rightarrow> seed k invoke G' rest))"

definition seed_compute ::
  "'a pandas \<Rightarrow> 'a::{plus,minus,times} DiGraph \<Rightarrow> 'a pdval \<Rightarrow> 'a DiGraph \<times> (error + unit)" where
  "seed_compute P G input_data =
     (let G1 = clear_edge_info G compute_key
      in seed compute_key (\<lambda>node. node_compute P (calc node) [input_data]) G1 (input_nodes G1))"

definition compute ::
  "('a node list \<Rightarrow> 'a node list) \<Rightarrow> 'a pandas \<Rightarrow> 'a::{plus,minus,times} DiGraph \<Rightarrow> 'a pdval
     \<Rightarrow> ('a, 'a pdval) pass_result" where
  "compute list_of_set P G input_data =
     (case seed_compute P G input_data of
        (G2, Inl e) \<Rightarrow>
          \<lparr>graph_after = G2, rounds_run = 0, frontiers = [], outcome = Inl (Raised e)\<rparr>
      | (G2, Inr _) \<Rightarrow> traverse_graph list_of_set compute_key (node_compute P) G2)"

text \<open>
  \<open>node.output_frequency(input_frequencies[node.ts_name])\<close>: AttributeError for an input
  node without the attribute \<open>ts_name\<close>, KeyError for a name that the map lacks.
\<close>

definition seed_frequency :: "(string \<rightharpoonup> FreqStr) \<Rightarrow> 'a node \<Rightarrow> error + FreqStr" where
  "seed_frequency input_frequencies node =
     (case ts_name (calc node) of
        None \<Rightarrow> Inl AttributeError
      | Some nm \<Rightarrow>
          (case input_frequencies nm of
             None \<Rightarrow> Inl KeyError
           | Some f \<Rightarrow> node_output_frequency (calc node) [f]))"

definition seed_frequencies ::
  "'a DiGraph \<Rightarrow> (string \<rightharpoonup> FreqStr) \<Rightarrow> 'a DiGraph \<times> (error + unit)" where
  "seed_frequencies G input_frequencies =
     (let G1 = clear_edge_info G output_frequency_key
      in seed output_frequency_key (seed_frequency input_frequencies) G1 (input_nodes G1))"

definition parse_frequencies ::
  "('a node list \<Rightarrow> 'a node list) \<Rightarrow> 'a DiGraph \<Rightarrow> (string \<rightharpoonup> FreqStr)
     \<Rightarrow> ('a, FreqStr) pass_result" where
  "parse_frequencies list_of_set G input_frequencies =
     (case seed_frequencies G input_frequencies of
        (G2, Inl e) \<Rightarrow>
          \<lparr>graph_after = G2, rounds_run = 0, frontiers = [], outcome = Inl (Raised e)\<rparr>
      | (G2, Inr _) \<Rightarrow> traverse_graph list_of_set output_frequency_key node_output_frequency G2)"

section \<open>Vocabulary of the claims\<close>



text \<open>
  What \<open>list\<close> of a set guarantees of its result: it has the elements of the set, each
  once.
\<close>

definition lists_the_set :: "('n list \<Rightarrow> 'n list) \<Rightarrow> bool" where
  "lists_the_set list_of_set = (\<forall>xs. set (list_of_set xs) = set xs \<and> distinct (list_of_set xs))"




text \<open>
  Two notions for the proofs. The \<open>wiring\<close> of a graph is its list of edges with the
  \<open>input_idx\<close> of each, which is all that the order of the predecessors depends on. A
  graph \<open>H\<close> is \<open>staged\<close> for a set of nodes when it has the nodes and the wiring of \<open>G\<close>
  and every edge carries, under the key of the frequency pass, the value of its source
  if the source is in the set and \<open>None\<close> otherwise.
\<close>

definition wiring :: "'a DiGraph \<Rightarrow> (('a node \<times> 'a node) \<times> int option) list" where
  "wiring G = map (\<lambda>e. (fst e, attr_input_idx (snd e))) (adj G)"

definition staged :: "'a DiGraph \<Rightarrow> ('a node \<Rightarrow> FreqStr) \<Rightarrow> 'a node set \<Rightarrow> 'a DiGraph \<Rightarrow> bool" where
  "staged G val S H =
     (nodes H = nodes G \<and> wiring H = wiring G
      \<and> (\<forall>u w. (u, w) \<in> set (map fst (adj G)) \<longrightarrow>
            edge_attr H output_frequency_key u w = (if u \<in> S then Some (val u) else None)))"

section \<open>Instances for the concrete evaluations\<close>

text \<open>
  An instance of the pandas kernels for evaluations that never reach them, and the graphs
  and tables at which the theorems below are evaluated. For the order of \<open>list\<close> of a
  set, the concrete evaluations take the order of insertion (\<open>remdups\<close>).
\<close>

definition unused_kernels :: "'a pandas" where
  "unused_kernels =
     \<lparr>align = (\<lambda>a b. (a, b)),
      frame_arith = (\<lambda>bop x y. Inl (TypeError Builtin)),
      resample = (\<lambda>frequency aggregation data. Inl (TypeError Builtin))\<rparr>"

definition no_args :: edge_args where
  "no_args = \<lparr>input_idx = None, output_idx = None\<rparr>"

definition idx_args :: "int \<Rightarrow> edge_args" where
  "idx_args i = \<lparr>input_idx = Some i, output_idx = None\<rparr>"

definition table_AB :: "real pdval" where
  "table_AB = FrameV \<lparr>df_index = [0, 1, 2],
                      df_columns = [(''A'', [1, 2, 3]), (''B'', [10, 20, 30])]\<rparr>"

text \<open>
  A Subtract unit wired to a single input, and a Filter that hands a DataFrame to an
  Output unit.
\<close>

definition graph_subtract_one_input :: "real DiGraph" where
  "graph_subtract_one_input =
     CompositeCalculation ''one input''
       [(Node 0 (Input ''A''), Node 1 (Subtract 0), idx_args 1),
        (Node 1 (Subtract 0), Node 2 (Output ''X''), no_args)]"

definition graph_filter_output :: "real DiGraph" where
  "graph_filter_output =
     CompositeCalculation ''frame to output''
       [(Node 0 (Filter [''A''] False), Node 1 (Output ''X''), no_args)]"

text \<open>A Subtract unit fed by two inputs, the edge of the second listed first.\<close>

definition graph_subtract :: "real DiGraph" where
  "graph_subtract =
     CompositeCalculation ''difference''
       [(Node 1 (Input ''B''), Node 2 (Subtract 0), idx_args 2),
        (Node 0 (Input ''A''), Node 2 (Subtract 0), idx_args 1),
        (Node 2 (Subtract 0), Node 3 (Output ''X''), no_args)]"




text \<open>An input that feeds two units.\<close>

definition graph_fan_out :: "real DiGraph" where
  "graph_fan_out =
     CompositeCalculation ''fan out''
       [(Node 0 (Input ''A''), Node 1 (Add 0), no_args),
        (Node 0 (Input ''A''), Node 2 (Multiply 1), no_args),
        (Node 1 (Add 0), Node 3 (Subtract 0), idx_args 1),
        (Node 2 (Multiply 1), Node 3 (Subtract 0), idx_args 2),
        (Node 3 (Subtract 0), Node 4 (Output ''X''), no_args)]"

text \<open>The graph Input("A") \<open>\<rightarrow>\<close> Output("X").\<close>

definition graph_input_output :: "real DiGraph" where
  "graph_input_output =
     CompositeCalculation ''rename''
       [(Node 0 (Input ''A''), Node 1 (Output ''X''), no_args)]"


section \<open>Properties of the frequency handlers\<close>

lemma foldl_max_mem: "foldl (\<lambda>m y. if freq_gt y m then y else m) x xs \<in> set (x # xs)"
  by (induction xs arbitrary: x) auto

lemma foldl_max_start:
  "numbervalue x \<le> numbervalue (foldl (\<lambda>m y. if freq_gt y m then y else m) x xs)"
proof (induction xs arbitrary: x)
  case Nil
  show ?case by simp
next
  case (Cons y ys)
  have "numbervalue x \<le> numbervalue (if freq_gt y x then y else x)"
    by (simp add: freq_gt_def)
  also have "\<dots> \<le> numbervalue (foldl (\<lambda>m y. if freq_gt y m then y else m)
                                    (if freq_gt y x then y else x) ys)"
    by (rule Cons.IH)
  finally show ?case by simp
qed

lemma foldl_max_upper:
  "f \<in> set (x # xs) \<Longrightarrow>
     numbervalue f \<le> numbervalue (foldl (\<lambda>m y. if freq_gt y m then y else m) x xs)"
proof (induction xs arbitrary: x)
  case Nil
  then show ?case by simp
next
  case (Cons y ys)
  let ?c = "if freq_gt y x then y else x"
  have start: "numbervalue ?c \<le> numbervalue (foldl (\<lambda>m y. if freq_gt y m then y else m) ?c ys)"
    by (rule foldl_max_start)
  from Cons.prems consider "f = x" | "f = y" | "f \<in> set ys" by auto
  then show ?case
  proof cases
    case 1
    have "numbervalue x \<le> numbervalue ?c" by (simp add: freq_gt_def)
    with start 1 show ?thesis by simp
  next
    case 2
    have "numbervalue y \<le> numbervalue ?c" by (simp add: freq_gt_def)
    with start 2 show ?thesis by simp
  next
    case 3
    then have "f \<in> set (?c # ys)" by simp
    from Cons.IH [OF this] show ?thesis by simp
  qed
qed

lemma foldl_min_mem: "foldl (\<lambda>m y. if freq_lt y m then y else m) x xs \<in> set (x # xs)"
  by (induction xs arbitrary: x) auto

lemma foldl_min_start:
  "numbervalue (foldl (\<lambda>m y. if freq_lt y m then y else m) x xs) \<le> numbervalue x"
proof (induction xs arbitrary: x)
  case Nil
  show ?case by simp
next
  case (Cons y ys)
  have "numbervalue (foldl (\<lambda>m y. if freq_lt y m then y else m)
                       (if freq_lt y x then y else x) ys)
          \<le> numbervalue (if freq_lt y x then y else x)"
    by (rule Cons.IH)
  also have "\<dots> \<le> numbervalue x"
    by (simp add: freq_lt_def)
  finally show ?case by simp
qed

lemma foldl_min_lower:
  "f \<in> set (x # xs) \<Longrightarrow>
     numbervalue (foldl (\<lambda>m y. if freq_lt y m then y else m) x xs) \<le> numbervalue f"
proof (induction xs arbitrary: x)
  case Nil
  then show ?case by simp
next
  case (Cons y ys)
  let ?c = "if freq_lt y x then y else x"
  have start: "numbervalue (foldl (\<lambda>m y. if freq_lt y m then y else m) ?c ys) \<le> numbervalue ?c"
    by (rule foldl_min_start)
  from Cons.prems consider "f = x" | "f = y" | "f \<in> set ys" by auto
  then show ?case
  proof cases
    case 1
    have "numbervalue ?c \<le> numbervalue x" by (simp add: freq_lt_def)
    with start 1 show ?thesis by simp
  next
    case 2
    have "numbervalue ?c \<le> numbervalue y" by (simp add: freq_lt_def)
    with start 2 show ?thesis by simp
  next
    case 3
    then have "f \<in> set (?c # ys)" by simp
    from Cons.IH [OF this] show ?thesis by simp
  qed
qed

text \<open>
  Claim C2. The frequencies are ordered Daily < Monthly < Quarterly < Annual, and on every
  non-empty tuple of frequencies the Coarsest handler returns a member of the tuple that
  no member exceeds (the maximum by this order), the Finest handler a member that exceeds
  no member (the minimum).
\<close>

theorem coarsest_finest_extremal:
  assumes "input_freqs \<noteq> []"
  shows "freq_lt D M \<and> freq_lt M Q \<and> freq_lt Q A
       \<and> (\<exists>hi. output_frequency CoarsestFrequency input_freqs = Inr hi
              \<and> hi \<in> set input_freqs
              \<and> (\<forall>f \<in> set input_freqs. freq_le f hi))
       \<and> (\<exists>lo. output_frequency FinestFrequency input_freqs = Inr lo
              \<and> lo \<in> set input_freqs
              \<and> (\<forall>f \<in> set input_freqs. freq_le lo f))"
proof -
  from assms obtain x xs where shape: "input_freqs = x # xs"
    by (cases input_freqs) auto
  have order: "freq_lt D M \<and> freq_lt M Q \<and> freq_lt Q A"
    by (simp add: freq_lt_def)
  let ?hi = "foldl (\<lambda>m y. if freq_gt y m then y else m) x xs"
  let ?lo = "foldl (\<lambda>m y. if freq_lt y m then y else m) x xs"
  have hi: "output_frequency CoarsestFrequency input_freqs = Inr ?hi"
    by (simp add: shape super_output_frequency_def)
  have lo: "output_frequency FinestFrequency input_freqs = Inr ?lo"
    by (simp add: shape super_output_frequency_def)
  have hi_mem: "?hi \<in> set input_freqs"
    unfolding shape by (rule foldl_max_mem)
  have lo_mem: "?lo \<in> set input_freqs"
    unfolding shape by (rule foldl_min_mem)
  have hi_top: "\<forall>f \<in> set input_freqs. freq_le f ?hi"
    unfolding shape freq_le_def using foldl_max_upper by blast
  have lo_bot: "\<forall>f \<in> set input_freqs. freq_le ?lo f"
    unfolding shape freq_le_def using foldl_min_lower by blast
  from order hi hi_mem hi_top lo lo_mem lo_bot show ?thesis by blast
qed

theorem coarsest_finest_extremal_witness:
  "output_frequency CoarsestFrequency [M, A, D, Q] = Inr A
   \<and> output_frequency FinestFrequency [M, A, D, Q] = Inr D
   \<and> (\<exists>hi. output_frequency CoarsestFrequency [M, A, D, Q] = Inr hi
          \<and> hi \<in> set [M, A, D, Q] \<and> (\<forall>f \<in> set [M, A, D, Q]. freq_le f hi))"
proof -
  have ne: "[M, A, D, Q] \<noteq> []" by simp
  have "output_frequency CoarsestFrequency [M, A, D, Q] = Inr A"
    by (simp add: super_output_frequency_def freq_gt_def)
  moreover have "output_frequency FinestFrequency [M, A, D, Q] = Inr D"
    by (simp add: super_output_frequency_def freq_lt_def)
  ultimately show ?thesis
    using coarsest_finest_extremal [OF ne] by blast
qed

text \<open>
  Claim C6. The Downsample handler with target Quarterly fails on an Annual input with the
  ValueError of an invalid aggregation and returns Quarterly on a Monthly input; for one
  input frequency it fails exactly when the input ranks above the target, and returns the
  target otherwise.
\<close>

theorem downsample_output_frequency:
  "output_frequency (DownsampleFrequency Q) [A] = Inl (ValueError CanOnlyAggregate)
   \<and> output_frequency (DownsampleFrequency Q) [M] = Inr Q
   \<and> output_frequency (DownsampleFrequency target_freq) [f] =
       (if numbervalue f > numbervalue target_freq then Inl (ValueError CanOnlyAggregate)
        else Inr target_freq)"
  by (simp add: super_output_frequency_def freq_gt_def)

text \<open>
  Claim C10. A handler with unconstrained arity raises on the empty tuple of input
  frequencies: IdenticalFrequencies without a fixed n raises IndexError, Coarsest and
  Finest raise ValueError; none returns a frequency.
\<close>

theorem unconstrained_handlers_reject_empty:
  "output_frequency (IdenticalFrequencies None) [] = Inl IndexError
   \<and> output_frequency CoarsestFrequency [] = Inl (ValueError Builtin)
   \<and> output_frequency FinestFrequency [] = Inl (ValueError Builtin)"
  by (simp add: super_output_frequency_def)

section \<open>Properties of the graph operations\<close>

subsection \<open>Writing a payload leaves the topology alone\<close>

lemma map_fst_map_entry: "map fst (AList.map_entry key f xs) = map fst xs"
  by (induction xs) auto

lemma adj_keys_set_edge_attr [simp]:
  "map fst (adj (set_edge_attr G k u v x)) = map fst (adj G)"
  by (simp add: set_edge_attr_def map_fst_map_entry)

lemma nodes_set_edge_attr [simp]: "nodes (set_edge_attr G k u v x) = nodes G"
  by (simp add: set_edge_attr_def)

lemma adj_keys_clear_edge_info [simp]: "map fst (adj (clear_edge_info G k)) = map fst (adj G)"
  by (simp add: clear_edge_info_def comp_def)

lemma nodes_clear_edge_info [simp]: "nodes (clear_edge_info G k) = nodes G"
  by (simp add: clear_edge_info_def)

lemma successors_keys:
  "successors G node = map snd (filter (\<lambda>e. fst e = node) (map fst (adj G)))"
  by (simp add: successors_def succ_items_def filter_map comp_def)

lemma predecessors_keys:
  "predecessors G node = map fst (filter (\<lambda>e. snd e = node) (map fst (adj G)))"
  by (simp add: predecessors_def pred_items_def filter_map comp_def)


lemma pred_items_Nil_keys: "(pred_items G node = []) = (predecessors G node = [])"
  by (simp add: predecessors_def)

lemma same_keys_successors:
  "map fst (adj H) = map fst (adj G) \<Longrightarrow> successors H node = successors G node"
  by (simp add: successors_keys)



lemma same_topology_input_nodes:
  "map fst (adj H) = map fst (adj G) \<Longrightarrow> nodes H = nodes G \<Longrightarrow> input_nodes H = input_nodes G"
  by (simp add: input_nodes_def pred_items_Nil_keys predecessors_keys)

lemma get_sorted_node_successors_eq: "get_sorted_node_successors G node = Inr (successors G node)"
  by (simp add: get_sorted_node_successors_def successors_def)

lemma update_successor_one:
  "update_successor_edge_information G node k [r] =
     Inr (case successors G node of [] \<Rightarrow> G | s # rest \<Rightarrow> set_edge_attr G k node s r)"
  by (simp add: update_successor_edge_information_def get_sorted_node_successors_eq
           split: list.split)

lemma update_successor_keys:
  "update_successor_edge_information G node k [r] = Inr H \<Longrightarrow>
     map fst (adj H) = map fst (adj G) \<and> nodes H = nodes G"
  by (auto simp: update_successor_one split: list.splits)

subsection \<open>Reading a payload after a write\<close>

lemma edge_attr_set_other:
  "(u', v') \<noteq> (u, v) \<Longrightarrow> edge_attr (set_edge_attr G k u v x) k' u' v' = edge_attr G k' u' v'"
  by (auto simp: edge_attr_def set_edge_attr_def map_of_map_entry)

lemma edge_attr_set_same:
  assumes "\<And>w d. get_attr k (set_attr k w d) = w" and "(u, v) \<in> set (map fst (adj G))"
  shows "edge_attr (set_edge_attr G k u v x) k u v = Some x"
proof -
  from assms(2) obtain d where "map_of (adj G) (u, v) = Some d"
    by (metis map_of_eq_None_iff not_Some_eq set_map)
  then show ?thesis
    by (simp add: edge_attr_def set_edge_attr_def map_of_map_entry assms(1))
qed

lemma map_of_map_snd:
  "map_of (map (\<lambda>e. (fst e, f (snd e))) xs) key = map_option f (map_of xs key)"
  by (induction xs) auto

lemma edge_attr_clear:
  assumes "\<And>w d. get_attr k (set_attr k w d) = w"
  shows "edge_attr (clear_edge_info G k) k u v = None"
  by (cases "map_of (adj G) (u, v)")
     (simp_all add: edge_attr_def clear_edge_info_def map_of_map_snd assms)

subsection \<open>The loop counter bounds the rounds\<close>

lemma traverse_loop_stop:
  assumes "computable_nodes = [] \<or> iters_left \<le> 0"
  shows "traverse_loop list_of_set k node_method final_node G computable_nodes calculation_results
           final_node_reached iters_left rounds earlier =
         \<lparr>graph_after = G, rounds_run = rounds, frontiers = earlier @ [computable_nodes],
          outcome =
            (if \<not> final_node_reached then Inl (Raised (ValueError CouldntReachFinalNode))
             else (case calculation_results of
                     None \<Rightarrow> Inl (Raised UnboundLocalError)
                   | Some results \<Rightarrow> Inr (ListOf results)))\<rparr>"
  by (subst traverse_loop.simps) (use assms in auto)

lemma traverse_loop_visit_error:
  assumes "computable_nodes \<noteq> []" and "0 < iters_left"
      and "visit_nodes k node_method final_node G computable_nodes calculation_results = (G', Inl e)"
  shows "traverse_loop list_of_set k node_method final_node G computable_nodes calculation_results
           final_node_reached iters_left rounds earlier =
         \<lparr>graph_after = G', rounds_run = rounds + 1, frontiers = earlier @ [computable_nodes],
          outcome = Inl e\<rparr>"
  by (subst traverse_loop.simps) (use assms in simp)


lemma traverse_loop_step:
  assumes "computable_nodes \<noteq> []" and "0 < iters_left"
      and "visit_nodes k node_method final_node G computable_nodes calculation_results
             = (G', Inr (results', hit))"
      and "unvisited_nodes_with_all_inputs list_of_set G' k = Inr computable_nodes'"
  shows "traverse_loop list_of_set k node_method final_node G computable_nodes calculation_results
           final_node_reached iters_left rounds earlier =
         traverse_loop list_of_set k node_method final_node G' computable_nodes' results'
           (final_node_reached \<or> hit) (iters_left - 1) (rounds + 1)
           (earlier @ [computable_nodes])"
  by (subst traverse_loop.simps) (use assms in simp)


subsection \<open>A pass changes nothing but the payloads of its own key\<close>










lemma compute_key_overwrite:
  "set_attr compute_key v (set_attr compute_key w d) = set_attr compute_key v d"
  by (simp add: compute_key_def)

lemma output_frequency_key_read: "get_attr output_frequency_key (set_attr output_frequency_key w d) = w"
  by (simp add: output_frequency_key_def)

lemma compute_key_read: "get_attr compute_key (set_attr compute_key w d) = w"
  by (simp add: compute_key_def)




subsection \<open>Nodes behind a cycle are never evaluated\<close>

















subsection \<open>What seeding writes\<close>

lemma distinct_successors:
  assumes "distinct (map fst (adj G))"
  shows "distinct (successors G n)"
proof -
  have "inj_on snd (set (filter (\<lambda>e. fst e = n) (map fst (adj G))))"
    by (auto intro!: inj_onI prod_eqI)
  with assms show ?thesis
    by (simp add: successors_keys distinct_map)
qed

lemma successor_has_key:
  assumes "s \<in> set (successors G n)"
  shows "(n, s) \<in> set (map fst (adj G))"
proof -
  from assms obtain e where mem: "e \<in> set (map fst (adj G))" and "fst e = n" and "snd e = s"
    by (auto simp: successors_keys)
  then have "e = (n, s)" by (simp add: prod_eq_iff)
  with mem show ?thesis by simp
qed

lemma update_successor_frame:
  assumes "update_successor_edge_information G m k [r] = Inr H" and "n \<noteq> m"
  shows "edge_attr H k n v = edge_attr G k n v"
  using assms
  by (auto simp: update_successor_one edge_attr_set_other split: list.splits)

lemma seed_frame:
  "seed k invoke G ns = (H, res) \<Longrightarrow> n \<notin> set ns \<Longrightarrow> edge_attr H k n v = edge_attr G k n v"
proof (induction ns arbitrary: G)
  case Nil
  then show ?case by simp
next
  case (Cons m ns)
  show ?case
  proof (cases "invoke m")
    case (Inl e)
    with Cons.prems show ?thesis by simp
  next
    case (Inr r)
    obtain G' where upd: "update_successor_edge_information G m k [r] = Inr G'"
      by (simp add: update_successor_one)
    from Cons.prems(2) have "n \<noteq> m" and rest: "n \<notin> set ns" by auto
    from update_successor_frame [OF upd this(1)]
    have step: "edge_attr G' k n v = edge_attr G k n v" .
    from Cons.prems(1) Inr upd have "seed k invoke G' ns = (H, res)" by simp
    from Cons.IH [OF this rest] step show ?thesis by simp
  qed
qed

lemma seed_stages:
  assumes law: "\<And>w d. get_attr k (set_attr k w d) = w"
  shows "distinct (map fst (adj G)) \<Longrightarrow> distinct ns \<Longrightarrow> seed k invoke G ns = (H, Inr u)
         \<Longrightarrow> n \<in> set ns \<Longrightarrow> successors G n = s # rest
         \<Longrightarrow> \<exists>r. invoke n = Inr r \<and> edge_attr H k n s = Some r
                 \<and> (\<forall>t \<in> set rest. edge_attr H k n t = edge_attr G k n t)"
proof (induction ns arbitrary: G)
  case Nil
  then show ?case by simp
next
  case (Cons m ns)
  from Cons.prems(3) obtain r where r: "invoke m = Inr r"
    by (cases "invoke m") auto
  obtain G' where upd: "update_successor_edge_information G m k [r] = Inr G'"
    by (simp add: update_successor_one)
  note keys = update_successor_keys [OF upd]
  from Cons.prems(3) r upd have seeded: "seed k invoke G' ns = (H, Inr u)" by simp
  from Cons.prems(2) have fresh: "m \<notin> set ns" and dist: "distinct ns" by simp_all
  show ?case
  proof (cases "n = m")
    case True
    with fresh have "n \<notin> set ns" by simp
    from seed_frame [OF seeded this]
    have frame: "\<And>v. edge_attr H k n v = edge_attr G' k n v" .
    from upd True Cons.prems(5) have G': "G' = set_edge_attr G k n s r"
      by (simp add: update_successor_one)
    from Cons.prems(5) have "s \<in> set (successors G n)" by simp
    then have key: "(n, s) \<in> set (map fst (adj G))"
      by (rule successor_has_key)
    have first: "edge_attr H k n s = Some r"
      using frame G' edge_attr_set_same [OF law key] by simp
    from distinct_successors [OF Cons.prems(1), of n] Cons.prems(5)
    have "s \<notin> set rest" by simp
    then have "\<forall>t \<in> set rest. (n, t) \<noteq> (n, s)" by auto
    then have others: "\<forall>t \<in> set rest. edge_attr H k n t = edge_attr G k n t"
      using frame G' by (simp add: edge_attr_set_other)
    from r True first others show ?thesis by blast
  next
    case False
    with Cons.prems(4) have n: "n \<in> set ns" by simp
    from keys Cons.prems(1) have dk: "distinct (map fst (adj G'))" by simp
    from keys Cons.prems(5) have succ: "successors G' n = s # rest"
      using same_keys_successors [of G' G n] by simp
    from Cons.IH [OF dk dist seeded n succ] obtain r' where
      "invoke n = Inr r'" and "edge_attr H k n s = Some r'"
      and "\<forall>t \<in> set rest. edge_attr H k n t = edge_attr G' k n t"
      by blast
    moreover have "\<And>t. edge_attr G' k n t = edge_attr G k n t"
      by (rule update_successor_frame [OF upd False])
    ultimately show ?thesis by auto
  qed
qed

lemma distinct_input_nodes: "distinct (nodes G) \<Longrightarrow> distinct (input_nodes G)"
  by (simp add: input_nodes_def)

lemma seeded_pass_stages:
  assumes law: "\<And>w d. get_attr k (set_attr k w d) = w"
      and "distinct (nodes G)" and "distinct (map fst (adj G))"
      and "n \<in> set (input_nodes G)" and "successors G n = s # rest"
      and "seed k invoke (clear_edge_info G k) (input_nodes (clear_edge_info G k)) = (H, Inr u)"
  shows "\<exists>r. invoke n = Inr r \<and> edge_attr H k n s = Some r
             \<and> (\<forall>t \<in> set rest. edge_attr H k n t = None)"
proof -
  let ?G1 = "clear_edge_info G k"
  have inputs: "input_nodes ?G1 = input_nodes G"
    using same_topology_input_nodes [of ?G1 G] by simp
  have succ: "successors ?G1 n = s # rest"
    using same_keys_successors [of ?G1 G n] assms(5) by simp
  have dk: "distinct (map fst (adj ?G1))"
    using assms(3) by simp
  have dn: "distinct (input_nodes ?G1)"
    using assms(2) inputs by (simp add: distinct_input_nodes)
  from assms(4) inputs have n: "n \<in> set (input_nodes ?G1)" by simp
  from seed_stages [OF law dk dn assms(6) n succ] obtain r where
    "invoke n = Inr r" and "edge_attr H k n s = Some r"
    and "\<forall>t \<in> set rest. edge_attr H k n t = edge_attr ?G1 k n t"
    by blast
  then show ?thesis
    by (auto simp: edge_attr_clear [OF law])
qed

subsection \<open>Graphs built by the constructor\<close>

lemma add_node_distinct: "distinct (nodes G) \<Longrightarrow> distinct (nodes (add_node G n))"
  by (simp add: add_node_def)

lemma adj_add_node [simp]: "adj (add_node G n) = adj G"
  by (simp add: add_node_def)

lemma add_edge_distinct:
  assumes "distinct (nodes G)" and "distinct (map fst (adj G))"
  shows "distinct (nodes (add_edge G u v dd)) \<and> distinct (map fst (adj (add_edge G u v dd)))"
  using assms
  by (simp add: add_edge_def Let_def add_node_distinct distinct_update)

lemma add_edges_from_distinct:
  "distinct (nodes G) \<Longrightarrow> distinct (map fst (adj G)) \<Longrightarrow>
     distinct (nodes (add_edges_from G es)) \<and> distinct (map fst (adj (add_edges_from G es)))"
proof (induction es arbitrary: G)
  case Nil
  then show ?case by simp
next
  case (Cons e es)
  from add_edge_distinct [OF Cons.prems, of "fst e" "fst (snd e)" "snd (snd e)"]
  show ?case
    by (simp add: Cons.IH)
qed

lemma constructed_graph_distinct:
  "distinct (nodes (CompositeCalculation name edges))
   \<and> distinct (map fst (adj (CompositeCalculation name edges)))"
  unfolding CompositeCalculation_def
  by (rule add_edges_from_distinct) simp_all

subsection \<open>Rounds that repeat\<close>

lemma lists_the_set_single:
  assumes "lists_the_set list_of_set"
  shows "list_of_set [x] = [x]"
proof -
  from assms have elems: "set (list_of_set [x]) = {x}" and once: "distinct (list_of_set [x])"
    by (simp_all add: lists_the_set_def)
  from once have "length (list_of_set [x]) = card (set (list_of_set [x]))"
    by (simp add: distinct_card)
  with elems have "length (list_of_set [x]) = 1" by simp
  then obtain y where "list_of_set [x] = [y]"
    by (cases "list_of_set [x]") auto
  with elems show ?thesis by simp
qed

text \<open>
  Once a round evaluates the final node and leaves the graph and the frontier as they
  were, every further round does the same, and the pass returns that result when the
  budget is spent.
\<close>

lemma traverse_loop_steady:
  assumes ne: "computable_nodes \<noteq> []"
      and visit: "\<And>results. visit_nodes k node_method final_node G computable_nodes results
                               = (G, Inr (Some r, True))"
      and frontier: "unvisited_nodes_with_all_inputs list_of_set G k = Inr computable_nodes"
  shows "0 < iters_left \<Longrightarrow>
         outcome (traverse_loop list_of_set k node_method final_node G computable_nodes results
                    final_node_reached iters_left rounds earlier) = Inr (ListOf r)
         \<and> graph_after (traverse_loop list_of_set k node_method final_node G computable_nodes
                          results final_node_reached iters_left rounds earlier) = G
         \<and> rounds_run (traverse_loop list_of_set k node_method final_node G computable_nodes
                         results final_node_reached iters_left rounds earlier)
             = rounds + nat iters_left"
proof (induction "nat iters_left"
         arbitrary: iters_left results final_node_reached rounds earlier)
  case 0
  then show ?case by simp
next
  case (Suc n)
  from Suc.prems have pos: "0 < iters_left" .
  have step: "traverse_loop list_of_set k node_method final_node G computable_nodes results
                final_node_reached iters_left rounds earlier
              = traverse_loop list_of_set k node_method final_node G computable_nodes (Some r)
                  (final_node_reached \<or> True) (iters_left - 1) (rounds + 1)
                  (earlier @ [computable_nodes])"
    by (rule traverse_loop_step [OF ne pos visit frontier])
  show ?case
  proof (cases "0 < iters_left - 1")
    case True
    from Suc.hyps(2) have "n = nat (iters_left - 1)" by simp
    from Suc.hyps(1) [OF this True] step pos show ?thesis
      by (simp add: nat_diff_distrib)
  next
    case False
    with pos have one: "iters_left = 1" by simp
    then have "iters_left - 1 \<le> 0" by simp
    then have "traverse_loop list_of_set k node_method final_node G computable_nodes (Some r)
                 (final_node_reached \<or> True) (iters_left - 1) (rounds + 1)
                 (earlier @ [computable_nodes])
               = \<lparr>graph_after = G, rounds_run = rounds + 1,
                  frontiers = (earlier @ [computable_nodes]) @ [computable_nodes],
                  outcome = Inr (ListOf r)\<rparr>"
      by (simp add: traverse_loop_stop)
    with step one show ?thesis by simp
  qed
qed

text \<open>A pass whose first round evaluates the last nodes before the final one.\<close>

lemma traverse_graph_two_rounds:
  assumes out: "output_node G = Inr final_node"
      and first_frontier: "unvisited_nodes_with_all_inputs list_of_set G k = Inr c1"
      and ne1: "c1 \<noteq> []"
      and first_round: "visit_nodes k node_method final_node G c1 None = (G', Inr (res1, False))"
      and second_frontier: "unvisited_nodes_with_all_inputs list_of_set G' k = Inr c2"
      and ne2: "c2 \<noteq> []"
      and second_round: "\<And>results. visit_nodes k node_method final_node G' c2 results
                                     = (G', Inr (Some r, True))"
  shows "outcome (traverse_graph list_of_set k node_method G) = Inr (ListOf r)
       \<and> graph_after (traverse_graph list_of_set k node_method G) = G'"
proof -
  have pos: "(0::int) < 10" by simp
  have "traverse_graph list_of_set k node_method G
          = traverse_loop list_of_set k node_method final_node G c1 None False 10 0 []"
    by (simp add: traverse_graph_def traverse_graph_iter_def max_iter_default_def out
          first_frontier)
  also have "\<dots> = traverse_loop list_of_set k node_method final_node G' c2 res1
                      (False \<or> False) (10 - 1) (0 + 1) ([] @ [c1])"
    by (rule traverse_loop_step [OF ne1 pos first_round second_frontier])
  finally have run: "traverse_graph list_of_set k node_method G
                       = traverse_loop list_of_set k node_method final_node G' c2 res1
                           (False \<or> False) (10 - 1) (0 + 1) ([] @ [c1])" .
  have "(0::int) < 10 - 1" by simp
  from traverse_loop_steady [OF ne2 second_round second_frontier this] run
  show ?thesis by simp
qed



lemma lists_the_set_remdups: "lists_the_set remdups"
  by (simp add: lists_the_set_def)

subsection \<open>The inputs of a node whose incoming edges are populated\<close>

lemma collect_map_fst:
  "collect (\<lambda>item. case g (snd item) of None \<Rightarrow> Inl e | Some i \<Rightarrow> Inr (fst item, i)) items
     = Inr pairs \<Longrightarrow> map fst pairs = map fst items"
proof (induction items arbitrary: pairs)
  case Nil
  then show ?case by simp
next
  case (Cons item items)
  then show ?case
    by (auto split: option.splits sum.splits)
qed

lemma sorted_predecessors_subset:
  assumes "get_sorted_node_predecessors G n = Inr preds"
  shows "set preds = set (predecessors G n)"
proof (cases "check_input_order (calc n)")
  case False
  with assms show ?thesis
    by (simp add: get_sorted_node_predecessors_def predecessors_def)
next
  case True
  with assms obtain pairs where
    pairs: "collect (\<lambda>item. case attr_input_idx (snd item) of
                               None \<Rightarrow> Inl KeyError
                             | Some i \<Rightarrow> Inr (fst item, i)) (pred_items G n) = Inr pairs"
    and preds: "preds = map fst (sort_key snd pairs)"
    by (auto simp: get_sorted_node_predecessors_def split: sum.splits)
  from collect_map_fst [OF pairs] have "map fst pairs = predecessors G n"
    by (simp add: predecessors_def)
  then have "fst ` set pairs = set (predecessors G n)"
    by (metis set_map)
  with preds show ?thesis by simp
qed

lemma those_map_Some: "those (map Some xs) = Some xs"
  by (induction xs) auto

lemma those_map_populated:
  "\<forall>x \<in> set xs. g x \<noteq> None \<Longrightarrow> those (map g xs) = Some (map (\<lambda>x. the (g x)) xs)"
  by (induction xs) auto

text \<open>
  A node whose incoming edges all carry a payload is called on those payloads: the list
  of its inputs holds no \<open>None\<close>.
\<close>

lemma ready_inputs_populated:
  assumes "node_inputs_ready G k n"
      and "get_predecessor_edge_information G n k = Inr inputs"
  shows "\<exists>args. those inputs = Some args"
proof -
  from assms(2) obtain preds where
    preds: "get_sorted_node_predecessors G n = Inr preds"
    and inputs: "inputs = map (\<lambda>p. edge_attr G k p n) preds"
    by (auto simp: get_predecessor_edge_information_def split: sum.splits)
  from assms(1) sorted_predecessors_subset [OF preds]
  have "\<forall>p \<in> set preds. edge_attr G k p n \<noteq> None"
    by (simp add: node_inputs_ready_def list_all_iff)
  from those_map_populated [OF this] inputs show ?thesis by simp
qed

section \<open>A pass over a scheduled graph\<close>

subsection \<open>The wiring of a graph\<close>





lemma wiring_map_entry:
  "map (\<lambda>e. (fst e, attr_input_idx (snd e)))
       (AList.map_entry key (set_attr output_frequency_key x) xs)
     = map (\<lambda>e. (fst e, attr_input_idx (snd e))) xs"
  by (induction xs) (auto simp: output_frequency_key_def)

lemma wiring_set_edge_attr [simp]:
  "wiring (set_edge_attr G output_frequency_key u v x) = wiring G"
  by (simp add: wiring_def set_edge_attr_def wiring_map_entry)

lemma wiring_clear_edge_info [simp]:
  "wiring (clear_edge_info G output_frequency_key) = wiring G"
  by (simp add: wiring_def clear_edge_info_def output_frequency_key_def comp_def)




subsection \<open>Staged payloads\<close>












subsection \<open>What a schedule says of a node\<close>












subsection \<open>The frontier of a staged graph\<close>





subsection \<open>The rounds of a pass over a scheduled graph\<close>





section \<open>Properties of the two passes\<close>

text \<open>
  Claim C1, as the code has it. For the graph Input("A") \<open>\<rightarrow>\<close> Output("X"), \<open>compute\<close> on a
  table whose column "A" holds the values [1, 2, 3] returns a list of one element, which
  is the output node's value: the series named "X" with the values [1, 2, 3].
\<close>

theorem compute_input_output_returns_list:
  assumes los: "lists_the_set list_of_set"
      and col: "getitem df ''A''
                  = Inr (SeriesV \<lparr>s_name = Some ''A'', s_index = idx,
                                  s_values = [1, 2, 3 :: real]\<rparr>)"
  shows "outcome (compute list_of_set P
                    (CompositeCalculation name
                       [(Node i (Input ''A''), Node j (Output ''X''), dd)])
                    (FrameV df))
         = Inr (ListOf [SeriesV \<lparr>s_name = Some ''X'', s_index = idx, s_values = [1, 2, 3]\<rparr>])"
proof -
  let ?a = "Node i (Input ''A'') :: real node"
  let ?x = "Node j (Output ''X'') :: real node"
  let ?G = "CompositeCalculation name [(?a, ?x, dd)]"
  let ?s = "SeriesV \<lparr>s_name = Some ''A'', s_index = idx, s_values = [1, 2, 3 :: real]\<rparr>"
  let ?r = "SeriesV \<lparr>s_name = Some ''X'', s_index = idx, s_values = [1, 2, 3 :: real]\<rparr>"
  let ?d = "\<lparr>attr_input_idx = input_idx dd, attr_output_idx = output_idx dd,
             attr_compute = Some ?s, attr_output_frequency = None\<rparr>"
  let ?G2 = "\<lparr>graph_name = name, nodes = [?a, ?x], adj = [((?a, ?x), ?d)]\<rparr>"
  have seeded: "seed_compute P ?G (FrameV df) = (?G2, Inr ())"
    by (simp add: seed_compute_def CompositeCalculation_def add_edge_def add_node_def Let_def
          clear_edge_info_def compute_key_def input_nodes_def pred_items_def
          check_inputs_def check_input_number_def check_input_types_def col
          update_successor_one successors_def succ_items_def set_edge_attr_def
          split: option.split)
  have out: "output_node ?G2 = Inr ?x"
    by (simp add: output_node_def succ_items_def)
  have frontier: "unvisited_nodes_with_all_inputs list_of_set ?G2 compute_key = Inr [?x]"
    by (simp add: unvisited_nodes_with_all_inputs_def out node_inputs_ready_def
          node_visited_def predecessors_def successors_def pred_items_def succ_items_def
          edge_attr_def compute_key_def lists_the_set_single [OF los])
  have visit: "visit_nodes compute_key (node_compute P) ?x ?G2 [?x] results
                 = (?G2, Inr (Some [?r], True))" for results
    by (simp add: get_predecessor_edge_information_def get_sorted_node_predecessors_def
          pred_items_def edge_attr_def compute_key_def evaluate_node_def
          check_inputs_def check_input_number_def check_input_types_def)
  have "outcome (traverse_graph list_of_set compute_key (node_compute P) ?G2)
          = Inr (ListOf [?r])"
    unfolding traverse_graph_def traverse_graph_iter_def max_iter_default_def
    using traverse_loop_steady [OF _ visit frontier, of 10 None False 0 "[]"]
    by (simp add: out frontier)
  with seeded show ?thesis
    by (simp add: compute_def)
qed

theorem compute_input_output_returns_list_witness:
  "outcome (compute remdups unused_kernels graph_input_output table_AB)
     = Inr (ListOf [SeriesV \<lparr>s_name = Some ''X'', s_index = [0, 1, 2], s_values = [1, 2, 3]\<rparr>])"
proof -
  have col: "getitem \<lparr>df_index = [0, 1, 2],
                       df_columns = [(''A'', [1, 2, 3]), (''B'', [10, 20, 30 :: real])]\<rparr> ''A''
               = Inr (SeriesV \<lparr>s_name = Some ''A'', s_index = [0, 1, 2], s_values = [1, 2, 3]\<rparr>)"
    by (simp add: getitem_def)
  from compute_input_output_returns_list [OF lists_the_set_remdups col]
  show ?thesis
    by (simp add: graph_input_output_def table_AB_def)
qed

theorem compute_returns_bare_series_counterexample:
  "outcome (compute remdups unused_kernels graph_input_output table_AB)
     \<noteq> Inr (Bare (SeriesV \<lparr>s_name = Some ''X'', s_index = [0, 1, 2], s_values = [1, 2, 3]\<rparr>))"
  by code_simp

subsection \<open>The frequency pass on a scheduled graph\<close>



text \<open>
  Claim C4, as the code has it. Seeding invokes every input node on the value supplied
  from outside (the table for the data pass, the declared frequency of the node's name
  for the frequency pass) and stages the result on the first of the node's outgoing
  edges in declared output order; every further outgoing edge of the node is left
  without a payload. (The graph is one whose nodes and whose edges are each listed once,
  as in every graph that the constructor builds.)
\<close>

theorem seeding_stages_first_edge_only:
  assumes "distinct (nodes G)" and "distinct (map fst (adj G))"
      and "node \<in> set (input_nodes G)"
      and "successors G node = s # rest"
  shows "(seed_compute P G input_data = (G2, Inr ()) \<longrightarrow>
            (\<exists>r. node_compute P (calc node) [input_data] = Inr r
                  \<and> edge_attr G2 compute_key node s = Some r
                  \<and> (\<forall>t \<in> set rest. edge_attr G2 compute_key node t = None)))
       \<and> (seed_frequencies G input_frequencies = (G3, Inr ()) \<longrightarrow>
            (\<exists>f. seed_frequency input_frequencies node = Inr f
                  \<and> edge_attr G3 output_frequency_key node s = Some f
                  \<and> (\<forall>t \<in> set rest. edge_attr G3 output_frequency_key node t = None)))"
proof (intro conjI impI)
  assume "seed_compute P G input_data = (G2, Inr ())"
  then have "seed compute_key (\<lambda>node. node_compute P (calc node) [input_data])
               (clear_edge_info G compute_key) (input_nodes (clear_edge_info G compute_key))
             = (G2, Inr ())"
    by (simp add: seed_compute_def Let_def)
  from seeded_pass_stages [OF compute_key_read assms this]
  show "\<exists>r. node_compute P (calc node) [input_data] = Inr r
            \<and> edge_attr G2 compute_key node s = Some r
            \<and> (\<forall>t \<in> set rest. edge_attr G2 compute_key node t = None)" .
next
  assume "seed_frequencies G input_frequencies = (G3, Inr ())"
  then have "seed output_frequency_key (seed_frequency input_frequencies)
               (clear_edge_info G output_frequency_key)
               (input_nodes (clear_edge_info G output_frequency_key))
             = (G3, Inr ())"
    by (simp add: seed_frequencies_def Let_def)
  from seeded_pass_stages [OF output_frequency_key_read assms this]
  show "\<exists>f. seed_frequency input_frequencies node = Inr f
            \<and> edge_attr G3 output_frequency_key node s = Some f
            \<and> (\<forall>t \<in> set rest. edge_attr G3 output_frequency_key node t = None)" .
qed

theorem seeding_stages_first_edge_only_witness:
  "Node 0 (Input ''A'') \<in> set (input_nodes graph_fan_out)
   \<and> successors graph_fan_out (Node 0 (Input ''A'')) = [Node 1 (Add 0), Node 2 (Multiply 1)]
   \<and> snd (seed_compute unused_kernels graph_fan_out table_AB) = Inr ()
   \<and> edge_attr (fst (seed_compute unused_kernels graph_fan_out table_AB)) compute_key
        (Node 0 (Input ''A'')) (Node 1 (Add 0))
       = Some (SeriesV \<lparr>s_name = Some ''A'', s_index = [0, 1, 2], s_values = [1, 2, 3]\<rparr>)
   \<and> edge_attr (fst (seed_compute unused_kernels graph_fan_out table_AB)) compute_key
        (Node 0 (Input ''A'')) (Node 2 (Multiply 1)) = None"
proof -
  let ?n = "Node 0 (Input ''A'') :: real node"
  let ?G2 = "fst (seed_compute unused_kernels graph_fan_out table_AB)"
  have dn: "distinct (nodes graph_fan_out)"
    unfolding graph_fan_out_def by (rule constructed_graph_distinct [THEN conjunct1])
  have dk: "distinct (map fst (adj graph_fan_out))"
    unfolding graph_fan_out_def by (rule constructed_graph_distinct [THEN conjunct2])
  have inp: "?n \<in> set (input_nodes graph_fan_out)"
    by code_simp
  have succ: "successors graph_fan_out ?n = Node 1 (Add 0) # [Node 2 (Multiply 1)]"
    by code_simp
  have ok: "snd (seed_compute unused_kernels graph_fan_out table_AB) = Inr ()"
    by code_simp
  then have seeded: "seed_compute unused_kernels graph_fan_out table_AB = (?G2, Inr ())"
    by (simp add: prod_eq_iff)
  have col: "node_compute unused_kernels (calc ?n) [table_AB]
               = Inr (SeriesV \<lparr>s_name = Some ''A'', s_index = [0, 1, 2], s_values = [1, 2, 3]\<rparr>)"
    by code_simp
  from seeding_stages_first_edge_only [OF dn dk inp succ, of unused_kernels table_AB ?G2]
    seeded col inp succ ok
  show ?thesis by auto
qed

theorem seeding_fan_out_counterexample:
  "Node 0 (Input ''A'') \<in> set (input_nodes graph_fan_out)
   \<and> successors graph_fan_out (Node 0 (Input ''A'')) = [Node 1 (Add 0), Node 2 (Multiply 1)]
   \<and> snd (seed_compute unused_kernels graph_fan_out table_AB) = Inr ()
   \<and> edge_attr (fst (seed_compute unused_kernels graph_fan_out table_AB)) compute_key
        (Node 0 (Input ''A'')) (Node 2 (Multiply 1)) = None
   \<and> snd (seed_frequencies graph_fan_out [''A'' \<mapsto> Q]) = Inr ()
   \<and> edge_attr (fst (seed_frequencies graph_fan_out [''A'' \<mapsto> Q])) output_frequency_key
        (Node 0 (Input ''A'')) (Node 2 (Multiply 1)) = None"
  by code_simp

lemma mset_two_orders:
  assumes "{#q, r#} = {#y, z#}"
  shows "(q = y \<and> r = z) \<or> (q = z \<and> r = y)"
  using assms by (auto simp: add_eq_conv_ex)

lemma mset_three_orders:
  assumes "mset es = mset [x, y, z]"
  shows "es = [x, y, z] \<or> es = [x, z, y] \<or> es = [y, x, z]
       \<or> es = [y, z, x] \<or> es = [z, x, y] \<or> es = [z, y, x]"
proof -
  from assms have "length es = 3"
    using mset_eq_length [of es "[x, y, z]"] by simp
  then obtain p q r where es: "es = [p, q, r]"
    by (auto simp: length_Suc_conv numeral_3_eq_3)
  from assms es have eq: "{#p, q, r#} = {#x, y, z#}" by simp
  then have "p \<in># {#x, y, z#}"
    by (metis union_single_eq_member)
  then consider "p = x" | "p = y" | "p = z" by auto
  then show ?thesis
  proof cases
    case 1
    with eq have "{#q, r#} = {#y, z#}" by (simp add: add_mset_commute)
    from mset_two_orders [OF this] 1 es show ?thesis by auto
  next
    case 2
    with eq have "{#q, r#} = {#x, z#}"
      by (simp add: add_mset_commute)
    from mset_two_orders [OF this] 2 es show ?thesis by auto
  next
    case 3
    with eq have "{#q, r#} = {#x, y#}"
      by (simp add: add_mset_commute)
    from mset_two_orders [OF this] 3 es show ?thesis by auto
  qed
qed

text \<open>
  Claim C5. In a graph where the edge that carries series A into a Subtract unit has
  \<open>input_idx\<close> 1 and the edge that carries series B has \<open>input_idx\<close> 2, the Subtract unit
  stages A - B - const on its outgoing edge, and \<open>compute\<close> returns that series under the
  name of the output node (in a one-element list), whatever the order in which the three
  edges are listed at construction.
\<close>

theorem subtract_ordered_by_input_idx:
  fixes c :: "'a::{plus,minus,times}"
  assumes los: "lists_the_set list_of_set"
      and ids: "ia \<noteq> ib"
      and colA: "getitem df a = Inr (SeriesV sa)"
      and colB: "getitem df b = Inr (SeriesV sb)"
      and order: "mset edges =
                    mset [(Node ia (Input a), Node isub (Subtract c),
                             \<lparr>input_idx = Some 1, output_idx = None\<rparr>),
                          (Node ib (Input b), Node isub (Subtract c),
                             \<lparr>input_idx = Some 2, output_idx = None\<rparr>),
                          (Node isub (Subtract c), Node io (Output x),
                             \<lparr>input_idx = None, output_idx = None\<rparr>)]"
  shows "edge_attr (graph_after (compute list_of_set P (CompositeCalculation name edges)
                                   (FrameV df)))
           compute_key (Node isub (Subtract c)) (Node io (Output x))
           = Some (pd_scalar Minus (SeriesV (series_arith P Minus sa sb)) c)
       \<and> outcome (compute list_of_set P (CompositeCalculation name edges) (FrameV df))
           = Inr (ListOf [SeriesV ((series_arith P Minus sa sb)
                            \<lparr>s_values := map (\<lambda>v. v - c) (s_values (series_arith P Minus sa sb)),
                             s_name := Some x\<rparr>)])"
proof -
  note defs =
    CompositeCalculation_def add_edge_def add_node_def Let_def clear_edge_info_def
    compute_key_def input_nodes_def output_node_def pred_items_def succ_items_def
    predecessors_def successors_def check_inputs_def check_input_number_def
    check_input_types_def update_successor_edge_information_def
    get_sorted_node_successors_def set_edge_attr_def unvisited_nodes_with_all_inputs_def
    node_inputs_ready_def node_visited_def edge_attr_def get_predecessor_edge_information_def
    get_sorted_node_predecessors_def evaluate_node_def seed_compute_def
    pd_arith_def pd_scalar_def colA colB lists_the_set_single [OF los]
  let ?ea = "(Node ia (Input a), Node isub (Subtract c), \<lparr>input_idx = Some 1, output_idx = None\<rparr>)"
  let ?eb = "(Node ib (Input b), Node isub (Subtract c), \<lparr>input_idx = Some 2, output_idx = None\<rparr>)"
  let ?eo = "(Node isub (Subtract c), Node io (Output x), \<lparr>input_idx = None, output_idx = None\<rparr>)"
  let ?sub = "Node isub (Subtract c)"
  let ?out = "Node io (Output x)"
  let ?d = "pd_scalar Minus (SeriesV (series_arith P Minus sa sb)) c"
  let ?r = "SeriesV ((series_arith P Minus sa sb)
                       \<lparr>s_values := map (\<lambda>v. v - c) (s_values (series_arith P Minus sa sb)),
                        s_name := Some x\<rparr>)"
  let ?G = "CompositeCalculation name edges"
  from mset_three_orders [OF order]
  have orders: "edges = [?ea, ?eb, ?eo] \<or> edges = [?ea, ?eo, ?eb] \<or> edges = [?eb, ?ea, ?eo]
              \<or> edges = [?eb, ?eo, ?ea] \<or> edges = [?eo, ?ea, ?eb] \<or> edges = [?eo, ?eb, ?ea]" .
  define G2 where "G2 = fst (seed_compute P ?G (FrameV df))"
  define G3 where "G3 = fst (visit_nodes compute_key (node_compute P) ?out G2 [?sub] None)"
  have seeded: "seed_compute P ?G (FrameV df) = (G2, Inr ())"
    unfolding G2_def using orders ids by (elim disjE) (simp_all add: defs)
  have out: "output_node G2 = Inr ?out"
    unfolding G2_def using orders ids by (elim disjE) (simp_all add: defs)
  have first_frontier: "unvisited_nodes_with_all_inputs list_of_set G2 compute_key = Inr [?sub]"
    unfolding G2_def using orders ids by (elim disjE) (simp_all add: defs)
  have first_round: "visit_nodes compute_key (node_compute P) ?out G2 [?sub] None
                       = (G3, Inr (Some [?d], False))"
    unfolding G3_def G2_def using orders ids by (elim disjE) (simp_all add: defs)
  have second_frontier: "unvisited_nodes_with_all_inputs list_of_set G3 compute_key = Inr [?out]"
    unfolding G3_def G2_def using orders ids by (elim disjE) (simp_all add: defs)
  have second_round: "visit_nodes compute_key (node_compute P) ?out G3 [?out] results
                        = (G3, Inr (Some [?r], True))" for results
    unfolding G3_def G2_def using orders ids by (elim disjE) (simp_all add: defs)
  have staged: "edge_attr G3 compute_key ?sub ?out = Some ?d"
    unfolding G3_def G2_def using orders ids by (elim disjE) (simp_all add: defs)
  from traverse_graph_two_rounds
         [OF out first_frontier _ first_round second_frontier _ second_round]
  have "outcome (traverse_graph list_of_set compute_key (node_compute P) G2) = Inr (ListOf [?r])"
    and "graph_after (traverse_graph list_of_set compute_key (node_compute P) G2) = G3"
    by simp_all
  with seeded staged show ?thesis
    by (simp add: compute_def)
qed

theorem subtract_ordered_by_input_idx_witness:
  "outcome (compute remdups unused_kernels graph_subtract table_AB)
     = Inr (ListOf [SeriesV \<lparr>s_name = Some ''X'', s_index = [0, 1, 2],
                             s_values = [- 9, - 18, - 27]\<rparr>])"
proof -
  let ?df = "\<lparr>df_index = [0, 1, 2],
              df_columns = [(''A'', [1, 2, 3]), (''B'', [10, 20, 30 :: real])]\<rparr>"
  let ?sa = "\<lparr>s_name = Some ''A'', s_index = [0, 1, 2], s_values = [1, 2, 3 :: real]\<rparr>"
  let ?sb = "\<lparr>s_name = Some ''B'', s_index = [0, 1, 2], s_values = [10, 20, 30 :: real]\<rparr>"
  have ids: "(0::nat) \<noteq> 1" by simp
  have colA: "getitem ?df ''A'' = Inr (SeriesV ?sa)"
    by (simp add: getitem_def)
  have colB: "getitem ?df ''B'' = Inr (SeriesV ?sb)"
    by (simp add: getitem_def)
  have order:
    "mset [(Node 1 (Input ''B''), Node 2 (Subtract (0::real)), idx_args 2),
           (Node 0 (Input ''A''), Node 2 (Subtract 0), idx_args 1),
           (Node 2 (Subtract 0), Node 3 (Output ''X''), no_args)]
     = mset [(Node 0 (Input ''A''), Node 2 (Subtract 0),
                \<lparr>input_idx = Some 1, output_idx = None\<rparr>),
             (Node 1 (Input ''B''), Node 2 (Subtract 0),
                \<lparr>input_idx = Some 2, output_idx = None\<rparr>),
             (Node 2 (Subtract 0), Node 3 (Output ''X''),
                \<lparr>input_idx = None, output_idx = None\<rparr>)]"
    by (simp add: idx_args_def no_args_def)
  from subtract_ordered_by_input_idx
         [OF lists_the_set_remdups ids colA colB order, of unused_kernels "''difference''"]
  show ?thesis
    by (simp add: graph_subtract_def table_AB_def series_arith_def)
qed

subsection \<open>Exceptions raised by a node in the loop\<close>

lemma visit_nodes_append:
  "visit_nodes k node_method final_node G before results = (G1, Inr (results1, False)) \<Longrightarrow>
     visit_nodes k node_method final_node G (before @ ns) results
       = visit_nodes k node_method final_node G1 ns results1"
proof (induction before arbitrary: G results)
  case Nil
  then show ?case by simp
next
  case (Cons n before)
  from Cons.prems obtain inputs where
    inputs: "get_predecessor_edge_information G n k = Inr inputs"
    by (cases "get_predecessor_edge_information G n k") auto
  from Cons.prems inputs obtain r where r: "evaluate_node node_method n inputs = Inr r"
    by (cases "evaluate_node node_method n inputs") auto
  from Cons.prems inputs r have not_final: "n \<noteq> final_node"
    by (auto split: if_splits)
  obtain G' where upd: "update_successor_edge_information G n k [r] = Inr G'"
    by (simp add: update_successor_one)
  from Cons.prems inputs r not_final upd
  have "visit_nodes k node_method final_node G' before (Some [r]) = (G1, Inr (results1, False))"
    by simp
  from Cons.IH [OF this] inputs r not_final upd show ?case by simp
qed

lemma evaluate_node_error:
  "node_method (calc node) args = Inl e \<Longrightarrow>
     evaluate_node node_method node (map Some args)
       = Inl (case e of
                ValueError err \<Rightarrow> ProblemEvaluatingNode (node_str (calc node)) err
              | _ \<Rightarrow> Raised e)"
  by (cases e) (simp_all add: evaluate_node_def those_map_Some)

text \<open>
  Claim C7, as the code has it. In any round of the fixpoint loop of either pass, when
  the nodes of the frontier before some node evaluate and that node's method raises, the
  pass ends with that exception. A ValueError is raised again as a ValueError whose
  message holds the printed text of the node (\<open>str(node)\<close>: its class name with the name of
  its series or its constant, not its identity) and the original message. An exception of
  any other class (the TypeError of a handler's arity check or of an element-type check
  among them) leaves the pass as it is, without the node.
\<close>

theorem node_error_in_loop:
  assumes "0 < iters_left"
      and "visit_nodes k node_method final_node G before results = (G1, Inr (results1, False))"
      and "get_predecessor_edge_information G1 node k = Inr (map Some args)"
      and "node_method (calc node) args = Inl e"
  shows "outcome (traverse_loop list_of_set k node_method final_node G (before @ node # rest)
                    results final_node_reached iters_left rounds earlier)
         = Inl (case e of
                  ValueError err \<Rightarrow> ProblemEvaluatingNode (node_str (calc node)) err
                | _ \<Rightarrow> Raised e)"
proof -
  let ?e = "case e of
              ValueError err \<Rightarrow> ProblemEvaluatingNode (node_str (calc node)) err
            | _ \<Rightarrow> Raised e"
  have "visit_nodes k node_method final_node G (before @ node # rest) results
          = visit_nodes k node_method final_node G1 (node # rest) results1"
    by (rule visit_nodes_append [OF assms(2)])
  also have "\<dots> = (G1, Inl ?e)"
    using evaluate_node_error [of node_method node args e] assms(3,4) by simp
  finally have "visit_nodes k node_method final_node G (before @ node # rest) results = (G1, Inl ?e)" .
  from traverse_loop_visit_error [OF _ assms(1) this] show ?thesis by simp
qed

theorem node_error_in_loop_witness:
  "outcome (traverse_loop remdups output_frequency_key node_output_frequency
              (Node 3 (Output ''X''))
              (fst (seed_frequencies graph_subtract [''A'' \<mapsto> Q, ''B'' \<mapsto> M]))
              ([] @ Node 2 (Subtract 0) # []) None False 10 0 [])
     = Inl (ProblemEvaluatingNode [Text ''Subtract'', UnlessZero 0] NeedsIdenticalFrequencies)"
proof -
  let ?G = "fst (seed_frequencies graph_subtract [''A'' \<mapsto> Q, ''B'' \<mapsto> M])"
  have pos: "(0::int) < 10" by simp
  have before: "visit_nodes output_frequency_key node_output_frequency (Node 3 (Output ''X''))
                  ?G [] None = (?G, Inr (None, False))"
    by simp
  have inputs: "get_predecessor_edge_information ?G (Node 2 (Subtract 0)) output_frequency_key
                  = Inr (map Some [Q, M])"
    by code_simp
  have raised: "node_output_frequency (calc (Node 2 (Subtract (0::real)))) [Q, M]
                  = Inl (ValueError NeedsIdenticalFrequencies)"
    by code_simp
  from node_error_in_loop [OF pos before inputs raised, of remdups "[]" False 0 "[]"]
  show ?thesis by simp
qed

text \<open>
  A Subtract unit called with one frequency, and an Output unit handed a table, raise
  TypeError, and both passes end with that TypeError as it is. The pass over the
  two-input Subtract graph ends with the wrapped ValueError, which is the same exception
  whichever identity the raising unit has.
\<close>

theorem node_error_not_wrapped_counterexample:
  "node_output_frequency (Subtract (0::real)) [Q] = Inl (TypeError (AcceptsExactly 2))
   \<and> outcome (parse_frequencies remdups graph_subtract_one_input [''A'' \<mapsto> Q])
       = Inl (Raised (TypeError (AcceptsExactly 2)))
   \<and> outcome (compute remdups unused_kernels graph_filter_output table_AB)
       = Inl (Raised (TypeError InputNotOfType))
   \<and> outcome (parse_frequencies remdups graph_subtract [''A'' \<mapsto> Q, ''B'' \<mapsto> M])
       = Inl (ProblemEvaluatingNode [Text ''Subtract'', UnlessZero 0] NeedsIdenticalFrequencies)
   \<and> evaluate_node node_output_frequency (Node 2 (Subtract (0::real))) [Some Q, Some M]
       = evaluate_node node_output_frequency (Node 7 (Subtract 0)) [Some Q, Some M]"
  by code_simp

subsection \<open>Cycles\<close>



section \<open>Properties of the calculation units\<close>

text \<open>
  Claim C9, as the code has it. Add with the constant 5.0 applied to two series with the
  same index and the values [1, 2, 3] and [10, 20, 30] returns the series with the values
  [16, 27, 38] on that index: the elementwise sum plus the constant. (The values are small
  integers, on which binary floating point is exact.)
\<close>

theorem add_const_aligned:
  "node_compute P (Add (5::real))
     [SeriesV \<lparr>s_name = n1, s_index = idx, s_values = [1, 2, 3]\<rparr>,
      SeriesV \<lparr>s_name = n2, s_index = idx, s_values = [10, 20, 30]\<rparr>]
   = Inr (SeriesV \<lparr>s_name = (if n1 = n2 then n1 else None), s_index = idx,
                   s_values = [16, 27, 38]\<rparr>)"
  by (simp add: pd_arith_def series_arith_def pd_scalar_def)

theorem add_const_aligned_counterexample:
  "\<not> (\<exists>nm. node_compute unused_kernels (Add (5::real))
            [SeriesV \<lparr>s_name = Some ''A'', s_index = [0, 1, 2], s_values = [1, 2, 3]\<rparr>,
             SeriesV \<lparr>s_name = Some ''B'', s_index = [0, 1, 2], s_values = [10, 20, 30]\<rparr>]
          = Inr (SeriesV \<lparr>s_name = nm, s_index = [0, 1, 2], s_values = [16, 22, 38]\<rparr>))"
  by (simp add: pd_arith_def series_arith_def pd_scalar_def)

end
